theory Spec2Isabelle
  imports Complex_Main
begin

section \<open>GitMirror worker: shallow embedding of \<^verbatim>\<open>src/worker.js\<close>\<close>

text \<open>
  The worker is one JavaScript module: a router (\<^verbatim>\<open>fetch\<close>), a URL normaliser
  (\<^verbatim>\<open>normalize\<close>), a short-link registry over a key-value store, a metadata probe
  and a caching proxy (\<^verbatim>\<open>proxyFetch\<close>).

  Conventions of the embedding.
  \<^item> A JavaScript string is a \<open>string\<close>; a character stands for one code unit in the
    range 0..255.
  \<^item> A value that may be \<^verbatim>\<open>null\<close>/\<^verbatim>\<open>undefined\<close> is an \<open>option\<close>; JavaScript
    truthiness of such a string is \<open>truthy\<close> (absent and empty are both falsy).
  \<^item> A \<^verbatim>\<open>throw\<close> is the \<open>Inl\<close> of a sum, carrying the exception.
  \<^item> What the runtime provides and the source only calls (the URL parser, the SHA-1
    digest, \<^verbatim>\<open>encodeURIComponent\<close>, \<^verbatim>\<open>decodeURIComponent\<close>, \<^verbatim>\<open>Number\<close>) is a
    field of the record \<open>platform\<close>, passed to every function that uses it.
  \<^item> The key-value store, the edge cache, the promises handed to \<^verbatim>\<open>ctx.waitUntil\<close>,
    the random source and the upstream network are fields of the record \<open>world\<close>,
    passed through every effectful function; each store, cache and network operation
    also appends an \<open>event\<close> to the world's trace.
  \<^item> One request is handled at a time. The store and the cache are maps that hold what
    was last written to them, and their operations do not fail.
  \<^item> Time is not modelled: an abort timer is the number of milliseconds attached to a
    fetch, and an aborted fetch is one that throws.
\<close>

subsection \<open>Strings\<close>

definition truthy :: "string option \<Rightarrow> bool" where
  "truthy v = (case v of None \<Rightarrow> False | Some s \<Rightarrow> s \<noteq> [])"

definition apos :: char where
  "apos = CHR 0x27"

definition dquote :: char where
  "dquote = CHR 0x22"

text \<open>
  \<^verbatim>\<open>toLowerCase\<close>, and the case folding of the \<^verbatim>\<open>i\<close> flag of a regular expression, on
  the ASCII letters: header names, the letters of the patterns and serialised URLs are
  ASCII.
\<close>

definition lower_char :: "char \<Rightarrow> char" where
  "lower_char c =
     (case map_of (zip ''ABCDEFGHIJKLMNOPQRSTUVWXYZ'' ''abcdefghijklmnopqrstuvwxyz'') c of
        None \<Rightarrow> c
      | Some d \<Rightarrow> d)"

definition toLowerCase :: "string \<Rightarrow> string" where
  "toLowerCase s = map lower_char s"

text \<open>
  White space as \<^verbatim>\<open>trim\<close> and the regular-expression class \<^verbatim>\<open>\s\<close> see it, within
  the code units 0..255: TAB, LF, VT, FF, CR, SPACE and NO-BREAK SPACE.
\<close>

definition is_space :: "char \<Rightarrow> bool" where
  "is_space c = (of_char c \<in> {9, 10, 11, 12, 13, 32, 160 :: nat})"

definition trim :: "string \<Rightarrow> string" where
  "trim s = rev (dropWhile is_space (rev (dropWhile is_space s)))"

definition startsWith :: "string \<Rightarrow> string \<Rightarrow> bool" where
  "startsWith s p = (take (length p) s = p)"

text \<open>\<^verbatim>\<open>re.test(s)\<close> for a regular expression that is a plain substring.\<close>

fun contains_sub :: "string \<Rightarrow> string \<Rightarrow> bool" where
  "contains_sub [] p = (p = [])"
| "contains_sub (c # cs) p = (startsWith (c # cs) p \<or> contains_sub cs p)"

text \<open>\<^verbatim>\<open>s.split(sep).pop()\<close> for a one-character separator: what follows the last one.\<close>

definition split_pop :: "char \<Rightarrow> string \<Rightarrow> string" where
  "split_pop sep s = rev (takeWhile (\<lambda>c. c \<noteq> sep) (rev s))"

text \<open>The decimal digits of a number, as a template literal prints it.\<close>

fun string_of_nat :: "nat \<Rightarrow> string" where
  "string_of_nat n =
     (if n < 10 then [''0123456789'' ! n]
      else string_of_nat (n div 10) @ [''0123456789'' ! (n mod 10)])"

subsection \<open>Headers\<close>

text \<open>
  A \<^verbatim>\<open>Headers\<close> object is a list of name-value pairs read and written without regard
  to the case of the name. \<open>h_set\<close> leaves one entry for the name.
\<close>

type_synonym headers = "(string \<times> string) list"

definition same_name :: "string \<Rightarrow> string \<Rightarrow> bool" where
  "same_name a b = (toLowerCase a = toLowerCase b)"

fun h_get :: "headers \<Rightarrow> string \<Rightarrow> string option" where
  "h_get [] name = None"
| "h_get ((k, v) # h) name = (if same_name k name then Some v else h_get h name)"

definition h_has :: "headers \<Rightarrow> string \<Rightarrow> bool" where
  "h_has h name = (h_get h name \<noteq> None)"

definition h_delete :: "string \<Rightarrow> headers \<Rightarrow> headers" where
  "h_delete name h = filter (\<lambda>(k, v). \<not> same_name k name) h"

definition h_set :: "string \<Rightarrow> string \<Rightarrow> headers \<Rightarrow> headers" where
  "h_set name v h = h_delete name h @ [(toLowerCase name, v)]"

text \<open>\<^verbatim>\<open>Object.keys(o).forEach(k => h.set(k, o[k]))\<close>, and \<^verbatim>\<open>new Headers(o)\<close> on \<open>[]\<close>.\<close>

definition h_set_all :: "(string \<times> string) list \<Rightarrow> headers \<Rightarrow> headers" where
  "h_set_all kvs h = fold (\<lambda>(k, v) acc. h_set k v acc) kvs h"

definition CACHE_TTL :: nat where
  "CACHE_TTL = 31536000"

definition CORS_HEADERS :: "(string \<times> string) list" where
  "CORS_HEADERS =
     [(''Access-Control-Allow-Origin'', ''*''),
      (''Access-Control-Allow-Methods'', ''GET, HEAD, POST, OPTIONS''),
      (''Access-Control-Allow-Headers'', ''Content-Type, Range'')]"

subsection \<open>Exceptions, URLs and the platform\<close>

datatype exn =
    TypeError string
  | URIError string
  | SyntaxError string
  | Error string

fun message :: "exn \<Rightarrow> string" where
  "message (TypeError m) = m"
| "message (URIError m) = m"
| "message (SyntaxError m) = m"
| "message (Error m) = m"

text \<open>
  A parsed \<^verbatim>\<open>URL\<close> object, by its components (\<open>userinfo\<close> is the credentials
  with their \<^verbatim>\<open>@\<close>, or empty). \<open>href\<close> is the serialisation of the whole URL.
\<close>

record url =
  protocol :: string
  userinfo :: string
  hostname :: string
  port :: string
  pathname :: string
  search :: string
  hash :: string

definition href :: "url \<Rightarrow> string" where
  "href u =
     protocol u @ ''//'' @ userinfo u @ hostname u
       @ (if port u = [] then [] else '':'' @ port u) @ pathname u @ search u @ hash u"

record platform =
  URL_parse :: "string \<Rightarrow> string + url"
  sha1 :: "string \<Rightarrow> string"
  encodeURIComponent :: "string \<Rightarrow> string"
  decodeURIComponent :: "string \<Rightarrow> string + string"
  Number :: "string \<Rightarrow> real option"

text \<open>
  \<open>URL_parse\<close> is \<^verbatim>\<open>new URL(s)\<close>: \<open>Inl m\<close> when it throws a \<^verbatim>\<open>TypeError\<close> with
  message \<open>m\<close>. \<open>decodeURIComponent\<close> returns \<open>Inl m\<close> when it throws a \<^verbatim>\<open>URIError\<close>.
  \<open>Number\<close> returns \<open>None\<close> for \<^verbatim>\<open>NaN\<close>.
\<close>

subsection \<open>\<^verbatim>\<open>normalize\<close>\<close>

text \<open>The source's \<^verbatim>\<open>normalize\<close> is \<open>normalize_url\<close> here.\<close>

text \<open>\<^verbatim>\<open>/^https?:\/\//i.test(s)\<close>\<close>

definition has_http_prefix :: "string \<Rightarrow> bool" where
  "has_http_prefix s =
     (toLowerCase (take 7 s) = ''http://'' \<or> toLowerCase (take 8 s) = ''https://'')"

text \<open>
  The first two statements of \<^verbatim>\<open>normalize\<close>: the string handed to the parser.
  \<^verbatim>\<open>String(raw || "")\<close> is the identity on a string.
\<close>

definition urlStr_of :: "string \<Rightarrow> string" where
  "urlStr_of raw =
     (let urlStr = trim raw
      in if \<not> has_http_prefix urlStr then ''https://'' @ urlStr else urlStr)"

definition allowed :: "string list" where
  "allowed =
     [''github.com'', ''raw.githubusercontent.com'', ''objects.githubusercontent.com'',
      ''releases.githubusercontent.com'', ''gist.githubusercontent.com'']"

definition normalize_url :: "platform \<Rightarrow> string \<Rightarrow> exn + string" where
  "normalize_url p raw =
     (case URL_parse p (urlStr_of raw) of
        Inl m \<Rightarrow> Inl (TypeError m)
      | Inr u \<Rightarrow>
          if hostname u \<notin> set allowed then Inl (Error ''Host not allowed'')
          else Inr (href u))"

subsection \<open>Requests, responses and the world\<close>

datatype json =
    JStr string
  | JNum real
  | JBool bool
  | JObj "(string \<times> json) list"

text \<open>
  A response body: nothing, a text, one of the two HTML pages (\<^verbatim>\<open>renderUI(origin)\<close>,
  \<^verbatim>\<open>render404()\<close>; the templates themselves are static text), the
  \<^verbatim>\<open>JSON.stringify\<close> of a value, or the byte stream of an upstream response.
\<close>

datatype body =
    BNull
  | BText string
  | BRenderUI string
  | BRender404
  | BJson json
  | BStream string

record response =
  status :: nat
  rheaders :: headers
  rbody :: body

definition ok :: "response \<Rightarrow> bool" where
  "ok res = (200 \<le> status res \<and> status res \<le> 299)"

text \<open>
  The inbound request. \<open>req_pathname\<close> and \<open>req_origin\<close> are the \<^verbatim>\<open>pathname\<close> and
  \<^verbatim>\<open>origin\<close> of \<^verbatim>\<open>new URL(request.url)\<close>, \<open>req_query_url\<close> is
  \<^verbatim>\<open>url.searchParams.get("url")\<close>. \<open>req_json\<close> is the outcome of
  \<^verbatim>\<open>await request.json()\<close> followed by \<^verbatim>\<open>payload?.url\<close>: the parser's exception, or the
  \<^verbatim>\<open>url\<close> member when the payload has one (a string member; other JSON types are not
  modelled).
\<close>

record request =
  req_method :: string
  req_pathname :: string
  req_origin :: string
  req_query_url :: "string option"
  req_headers :: headers
  req_json :: "exn + string option"

text \<open>The options of an outbound \<^verbatim>\<open>fetch\<close>; \<open>f_timeout\<close> is the abort timer in ms.\<close>

record fetch_request =
  f_url :: string
  f_method :: string
  f_headers :: headers
  f_timeout :: "nat option"

datatype event =
    KvGet string
  | KvPut string string
  | CacheMatch string
  | Fetch fetch_request

text \<open>
  \<open>SHORT_KV\<close> is \<^verbatim>\<open>env.SHORT_KV\<close>; \<open>cache\<close> is \<^verbatim>\<open>caches.default\<close>, keyed by the URL of
  the cache key (the key's method is always \<^verbatim>\<open>GET\<close>); \<open>waitUntil\<close> holds the cache writes
  handed to \<^verbatim>\<open>ctx.waitUntil\<close>, which are not awaited by the handler; \<open>random_src\<close> is
  the sequence of values \<^verbatim>\<open>Math.random()\<close> returns and \<open>random_pos\<close> the number
  already drawn; \<open>upstream\<close> answers an outbound \<^verbatim>\<open>fetch\<close>, \<open>Inl\<close> when it throws
  (network failure or abort).
\<close>

record world =
  SHORT_KV :: "string \<rightharpoonup> string"
  cache :: "string \<rightharpoonup> response"
  waitUntil :: "(string \<times> response) list"
  random_src :: "nat \<Rightarrow> real"
  random_pos :: nat
  upstream :: "fetch_request \<Rightarrow> exn + response"
  trace :: "event list"

definition emit :: "event \<Rightarrow> world \<Rightarrow> world" where
  "emit e w = w\<lparr>trace := trace w @ [e]\<rparr>"

definition kv_get :: "string \<Rightarrow> world \<Rightarrow> string option \<times> world" where
  "kv_get k w = (SHORT_KV w k, emit (KvGet k) w)"

definition kv_put :: "string \<Rightarrow> string \<Rightarrow> world \<Rightarrow> world" where
  "kv_put k v w = emit (KvPut k v) (w\<lparr>SHORT_KV := (SHORT_KV w)(k \<mapsto> v)\<rparr>)"

definition cache_match :: "string \<Rightarrow> world \<Rightarrow> response option \<times> world" where
  "cache_match k w = (cache w k, emit (CacheMatch k) w)"

definition do_fetch :: "fetch_request \<Rightarrow> world \<Rightarrow> (exn + response) \<times> world" where
  "do_fetch fr w = (upstream w fr, emit (Fetch fr) w)"


definition Math_random :: "world \<Rightarrow> real \<times> world" where
  "Math_random w = (random_src w (random_pos w), w\<lparr>random_pos := Suc (random_pos w)\<rparr>)"

text \<open>\<^verbatim>\<open>json(data, status)\<close>\<close>

definition json_response :: "(string \<times> json) list \<Rightarrow> nat \<Rightarrow> response" where
  "json_response data st =
     \<lparr>status = st,
      rheaders = h_set_all (CORS_HEADERS @ [(''content-type'', ''application/json'')]) [],
      rbody = BJson (JObj data)\<rparr>"

subsection \<open>Short-link registry\<close>

definition chars :: string where
  "chars = ''abcdefghijkmnopqrstuvwxyzABCDEFGHJKLMNPQRSTUVWXYZ123456789''"

text \<open>\<^verbatim>\<open>chars.charAt(Math.floor(r * chars.length))\<close>; \<^verbatim>\<open>charAt\<close> is empty out of range.\<close>

definition pick_char :: "real \<Rightarrow> string" where
  "pick_char r =
     (let i = \<lfloor>r * real (length chars)\<rfloor>
      in if 0 \<le> i \<and> i < int (length chars) then [chars ! nat i] else [])"

fun makeShortCode :: "nat \<Rightarrow> world \<Rightarrow> string \<times> world" where
  "makeShortCode 0 w = ([], w)"
| "makeShortCode (Suc len) w =
     (case Math_random w of
        (r, w1) \<Rightarrow> (case makeShortCode len w1 of (s, w2) \<Rightarrow> (pick_char r @ s, w2)))"

text \<open>
  The \<^verbatim>\<open>do ... while\<close> loop of the shorten branch; the result carries the final value
  of the counter \<^verbatim>\<open>retries\<close>.
\<close>

function code_loop :: "world \<Rightarrow> nat \<Rightarrow> string \<times> nat \<times> world" where
  "code_loop w retries =
     (case makeShortCode 6 w of
        (code, w1) \<Rightarrow>
          (case kv_get (''c:'' @ code) w1 of
             (occupied, w2) \<Rightarrow>
               if truthy occupied \<and> Suc retries < 5 then code_loop w2 (Suc retries)
               else (code, Suc retries, w2)))"
  by pat_completeness auto
termination
  by (relation "measure (\<lambda>(w, retries). 5 - retries)") auto

text \<open>
  The body of the \<^verbatim>\<open>try\<close> block of the shorten branch from \<^verbatim>\<open>normalize(original)\<close>
  on: the exception caught, or the code and the target.
\<close>

definition create :: "platform \<Rightarrow> string \<Rightarrow> world \<Rightarrow> (exn + string \<times> string) \<times> world" where
  "create p original w =
     (case normalize_url p original of
        Inl e \<Rightarrow> (Inl e, w)
      | Inr target \<Rightarrow>
          (let hash = sha1 p target
           in case kv_get (''u:'' @ hash) w of
                (code0, w1) \<Rightarrow>
                  if \<not> truthy code0 then
                    (case code_loop w1 0 of
                       (code, retries, w2) \<Rightarrow>
                         (Inr (code, target),
                          kv_put (''u:'' @ hash) code (kv_put (''c:'' @ code) target w2)))
                  else (Inr (the code0, target), w1)))"

definition api_shorten :: "platform \<Rightarrow> request \<Rightarrow> world \<Rightarrow> response \<times> world" where
  "api_shorten p request w =
     (case req_json request of
        Inl e \<Rightarrow> (json_response [(''error'', JStr (message e))] 400, w)
      | Inr original \<Rightarrow>
          if \<not> truthy original then (json_response [(''error'', JStr ''URL is required'')] 400, w)
          else
            (case create p (the original) w of
               (Inl e, w') \<Rightarrow> (json_response [(''error'', JStr (message e))] 400, w')
             | (Inr (code, target), w') \<Rightarrow>
                 (json_response
                    [(''short'', JStr (''d/'' @ code)), (''long'', JStr target),
                     (''code'', JStr code)] 200, w')))"

text \<open>The lookup of the \<^verbatim>\<open>/d/<code>\<close> branch: the target, or nothing for a falsy value.\<close>

definition resolve :: "string \<Rightarrow> world \<Rightarrow> string option \<times> world" where
  "resolve code w =
     (case kv_get (''c:'' @ code) w of
        (target, w1) \<Rightarrow> (if \<not> truthy target then None else target, w1))"

subsection \<open>File names and types\<close>

text \<open>
  \<^verbatim>\<open>cd.match(/filename\*\s*=\s*([^;]+)/i)\<close>, first at one position, then at the
  leftmost position where it matches: the text of group 1. After the \<^verbatim>\<open>=\<close>, the
  greedy \<^verbatim>\<open>\s*\<close> takes the whole run of white space; when nothing but \<^verbatim>\<open>;\<close> or the
  end follows, the matcher backtracks and the group is the last white-space character.
\<close>

definition match_star_here :: "string \<Rightarrow> string option" where
  "match_star_here s =
     (if toLowerCase (take 9 s) = ''filename*'' then
        (case dropWhile is_space (drop 9 s) of
           [] \<Rightarrow> None
         | c # r \<Rightarrow>
             if c = CHR ''='' then
               (let ws = takeWhile is_space r;
                    g = takeWhile (\<lambda>x. x \<noteq> CHR '';'') (dropWhile is_space r)
                in if g \<noteq> [] then Some g
                   else if ws \<noteq> [] then Some [last ws]
                   else None)
             else None)
      else None)"

fun match_star :: "string \<Rightarrow> string option" where
  "match_star [] = None"
| "match_star (c # cs) =
     (case match_star_here (c # cs) of
        Some g \<Rightarrow> Some g
      | None \<Rightarrow> match_star cs)"

text \<open>
  \<^verbatim>\<open>cd.match(/filename\s*=\s*("?)([^";]+)\1/i)\<close>: the text of group 2. With an opening
  quote the run of characters other than \<^verbatim>\<open>"\<close> and \<^verbatim>\<open>;\<close> must be followed by the
  closing quote; otherwise, and without a quote, the matcher falls back as above.
\<close>

definition plain_char :: "char \<Rightarrow> bool" where
  "plain_char x = (x \<noteq> dquote \<and> x \<noteq> CHR '';'')"

definition match_name_here :: "string \<Rightarrow> string option" where
  "match_name_here s =
     (if toLowerCase (take 8 s) = ''filename'' then
        (case dropWhile is_space (drop 8 s) of
           [] \<Rightarrow> None
         | c # r \<Rightarrow>
             if c = CHR ''='' then
               (let ws = takeWhile is_space r;
                    r3 = dropWhile is_space r;
                    fallback = (if ws \<noteq> [] then Some [last ws] else None)
                in if r3 \<noteq> [] \<and> hd r3 = dquote then
                     (let g = takeWhile plain_char (tl r3)
                      in if g \<noteq> [] \<and> take 1 (dropWhile plain_char (tl r3)) = [dquote]
                         then Some g else fallback)
                   else
                     (let g = takeWhile plain_char r3
                      in if g \<noteq> [] then Some g else fallback))
             else None)
      else None)"

fun match_name :: "string \<Rightarrow> string option" where
  "match_name [] = None"
| "match_name (c # cs) =
     (case match_name_here (c # cs) of
        Some g \<Rightarrow> Some g
      | None \<Rightarrow> match_name cs)"

text \<open>\<^verbatim>\<open>s.replace(/(^['"]|['"]$)/g, "")\<close>: one quote off the front, then one off the end.\<close>

definition is_quote :: "char \<Rightarrow> bool" where
  "is_quote c = (c = apos \<or> c = dquote)"

definition strip_quotes :: "string \<Rightarrow> string" where
  "strip_quotes s =
     (let s1 = (if s \<noteq> [] \<and> is_quote (hd s) then tl s else s)
      in if s1 \<noteq> [] \<and> is_quote (last s1) then butlast s1 else s1)"

text \<open>\<^verbatim>\<open>s.split("''")\<close>; the first argument collects the current part, reversed.\<close>

fun split_apos2 :: "string \<Rightarrow> string \<Rightarrow> string list" where
  "split_apos2 cur (a # b # r) =
     (if a = apos \<and> b = apos then rev cur # split_apos2 [] r
      else split_apos2 (a # cur) (b # r))"
| "split_apos2 cur [a] = [rev (a # cur)]"
| "split_apos2 cur [] = [rev cur]"

definition getFilename :: "platform \<Rightarrow> string \<Rightarrow> response \<Rightarrow> exn + string" where
  "getFilename p url0 res =
     (case URL_parse p url0 of
        Inl m \<Rightarrow> Inl (TypeError m)
      | Inr u \<Rightarrow>
          (let name = split_pop CHR ''/'' (pathname u);
               dflt = (if name \<noteq> [] then name else ''downloaded-file'');
               cd = h_get (rheaders res) ''content-disposition''
           in if truthy cd then
                (case match_star (the cd) of
                   Some g \<Rightarrow>
                     (let parts = split_apos2 [] (strip_quotes (trim g))
                      in case decodeURIComponent p
                                (if length parts = 2 then parts ! 1 else parts ! 0) of
                           Inl m \<Rightarrow> Inl (URIError m)
                         | Inr s \<Rightarrow> Inr s)
                 | None \<Rightarrow>
                     (case match_name (the cd) of
                        Some g \<Rightarrow> Inr g
                      | None \<Rightarrow> Inr dflt))
              else Inr dflt))"

definition detectType :: "string \<Rightarrow> string" where
  "detectType url0 =
     (if contains_sub url0 ''/releases/'' then ''Release''
      else if contains_sub url0 ''/archive/'' then ''Source Code''
      else if contains_sub url0 ''raw.github'' then ''Raw File''
      else
        (let ext = toLowerCase (split_pop CHR ''.'' url0)
         in if ext \<in> set [''zip'', ''rar'', ''7z'', ''tar'', ''gz''] then ''Archive''
            else if ext \<in> set [''exe'', ''msi'', ''apk'', ''dmg'', ''iso''] then ''Binary''
            else ''File''))"

subsection \<open>\<^verbatim>\<open>proxyFetch\<close>\<close>

definition headersToKeep :: "string list" where
  "headersToKeep = [''range'', ''user-agent'', ''accept'', ''accept-encoding'']"

text \<open>The headers of the upstream request, built from those of the client request.\<close>

definition upstreamHeaders_of :: "headers \<Rightarrow> headers" where
  "upstreamHeaders_of h =
     h_set ''User-Agent'' ''Mozilla/5.0 (GitMirror)''
       (fold (\<lambda>(k, v) acc. if toLowerCase k \<in> set headersToKeep then h_set k v acc else acc)
          h [])"

definition cacheable :: "response \<Rightarrow> bool \<Rightarrow> request \<Rightarrow> bool" where
  "cacheable upstreamRes isRange request =
     (status upstreamRes = 200 \<and> \<not> isRange \<and> req_method request = ''GET'')"

text \<open>
  \<^verbatim>\<open>new Response(text, {status})\<close> with no headers given: the constructor supplies the
  content type of a string body, and nothing else.
\<close>

definition text_response :: "string \<Rightarrow> nat \<Rightarrow> response" where
  "text_response txt st =
     \<lparr>status = st, rheaders = [(''content-type'', ''text/plain;charset=UTF-8'')],
      rbody = BText txt\<rparr>"

definition upstream_error :: "exn \<Rightarrow> response" where
  "upstream_error err = text_response (''Upstream Error: '' @ message err) 502"

text \<open>The request of the upstream \<^verbatim>\<open>fetch\<close>.\<close>

definition upstream_request :: "string \<Rightarrow> request \<Rightarrow> fetch_request" where
  "upstream_request target request =
     \<lparr>f_url = target, f_method = req_method request,
      f_headers = upstreamHeaders_of (req_headers request), f_timeout = None\<rparr>"

text \<open>The response built from the upstream response and the file name.\<close>

definition rewrite_response ::
    "platform \<Rightarrow> response \<Rightarrow> bool \<Rightarrow> request \<Rightarrow> string \<Rightarrow> response" where
  "rewrite_response p upstreamRes isRange request filename =
     (let h1 = h_delete ''strict-transport-security'' (h_delete ''link'' (rheaders upstreamRes));
          h2 = h_set_all CORS_HEADERS h1;
          h3 = h_set ''X-Cache-Status'' (if isRange then ''BYPASS'' else ''MISS'') h2;
          h4 = h_set ''X-Powered-By'' ''GitMirror-Pro'' h3;
          h5 = h_set ''Content-Disposition''
                 (''attachment; filename*=UTF-8'' @ [apos, apos] @ encodeURIComponent p filename)
                 h4;
          responseHeaders =
            (if cacheable upstreamRes isRange request
             then h_set ''Cache-Control''
                    (''public, max-age='' @ string_of_nat CACHE_TTL @ '', immutable'') h5
             else h_set ''Cache-Control'' ''no-store'' h5)
      in \<lparr>status = status upstreamRes, rheaders = responseHeaders, rbody = rbody upstreamRes\<rparr>)"

text \<open>
  The \<^verbatim>\<open>try\<close> block of \<^verbatim>\<open>proxyFetch\<close>: the upstream fetch and the rewriting of its
  response. An exception of \<^verbatim>\<open>fetch\<close> or of \<^verbatim>\<open>getFilename\<close> ends in the \<^verbatim>\<open>catch\<close>.
\<close>

definition proxy_upstream ::
    "platform \<Rightarrow> string \<Rightarrow> string \<Rightarrow> request \<Rightarrow> bool \<Rightarrow> world
       \<Rightarrow> (exn + response) \<times> world" where
  "proxy_upstream p target cacheKey request isRange w =
     (case do_fetch (upstream_request target request) w of
        (Inl err, w1) \<Rightarrow> (Inr (upstream_error err), w1)
      | (Inr upstreamRes, w1) \<Rightarrow>
          (case getFilename p target upstreamRes of
             Inl err \<Rightarrow> (Inr (upstream_error err), w1)
           | Inr filename \<Rightarrow>
               (let response = rewrite_response p upstreamRes isRange request filename
                in if cacheable upstreamRes isRange request
                   then (Inr response, w1\<lparr>waitUntil := waitUntil w1 @ [(cacheKey, response)]\<rparr>)
                   else (Inr response, w1))))"

definition cache_hit :: "response \<Rightarrow> response" where
  "cache_hit cached =
     \<lparr>status = status cached,
      rheaders = h_set_all CORS_HEADERS
                   (h_set ''X-Powered-By'' ''GitMirror-Pro''
                      (h_set ''X-Cache-Status'' ''HIT'' (rheaders cached))),
      rbody = rbody cached\<rparr>"

text \<open>
  \<^verbatim>\<open>proxyFetch\<close>. The cache key is \<^verbatim>\<open>new Request(target, {method: "GET"})\<close>: the
  constructor parses \<open>target\<close> and throws a \<^verbatim>\<open>TypeError\<close>, outside the \<^verbatim>\<open>try\<close> block,
  when it is not a URL; the key's URL is the serialisation of the parsed one. The result
  is \<open>Inl\<close> for that uncaught exception and \<open>Inr\<close> for a response.
\<close>

definition proxyFetch ::
    "platform \<Rightarrow> string \<Rightarrow> request \<Rightarrow> world \<Rightarrow> (exn + response) \<times> world" where
  "proxyFetch p target request w =
     (let isRange = h_has (req_headers request) ''Range''
      in case URL_parse p target of
           Inl m \<Rightarrow> (Inl (TypeError m), w)
         | Inr key \<Rightarrow>
             (let cacheKey = href key
              in if \<not> isRange \<and> req_method request = ''GET'' then
                   (case cache_match cacheKey w of
                      (Some cached, w1) \<Rightarrow> (Inr (cache_hit cached), w1)
                    | (None, w1) \<Rightarrow> proxy_upstream p target cacheKey request isRange w1)
                 else proxy_upstream p target cacheKey request isRange w))"

subsection \<open>Metadata probe\<close>

text \<open>\<^verbatim>\<open>fetchWithTimeout(url, options)\<close> with the default \<^verbatim>\<open>timeout = 5000\<close>.\<close>

definition fetchWithTimeout ::
    "string \<Rightarrow> string \<Rightarrow> headers \<Rightarrow> world \<Rightarrow> (exn + response) \<times> world" where
  "fetchWithTimeout url0 meth hs w =
     do_fetch \<lparr>f_url = url0, f_method = meth, f_headers = hs, f_timeout = Some 5000\<rparr> w"

definition meta_failure :: "exn \<Rightarrow> response" where
  "meta_failure e =
     json_response
       [(''error'', JStr ''Failed to fetch metadata''), (''details'', JStr (message e))] 400"

text \<open>
  The two probes of the meta branch: \<^verbatim>\<open>HEAD\<close>, then the ranged \<^verbatim>\<open>GET\<close> when the
  first response is not OK or has no truthy \<^verbatim>\<open>content-length\<close>.
\<close>

definition probe :: "string \<Rightarrow> world \<Rightarrow> (exn + response) \<times> world" where
  "probe target w =
     (case fetchWithTimeout target ''HEAD'' [] w of
        (Inl e, w1) \<Rightarrow> (Inl e, w1)
      | (Inr res, w1) \<Rightarrow>
          if \<not> ok res \<or> \<not> truthy (h_get (rheaders res) ''content-length'')
          then fetchWithTimeout target ''GET'' (h_set ''Range'' ''bytes=0-0'' []) w1
          else (Inr res, w1))"

definition api_meta :: "platform \<Rightarrow> request \<Rightarrow> world \<Rightarrow> response \<times> world" where
  "api_meta p request w =
     (let raw = req_query_url request
      in if \<not> truthy raw then (json_response [(''error'', JStr ''URL missing'')] 400, w)
         else
           (case normalize_url p (the raw) of
              Inl e \<Rightarrow> (meta_failure e, w)
            | Inr target \<Rightarrow>
                (case probe target w of
                   (Inl e, w1) \<Rightarrow> (meta_failure e, w1)
                 | (Inr res, w1) \<Rightarrow>
                     if \<not> ok res then (meta_failure (Error ''File not reachable''), w1)
                     else
                       (case getFilename p target res of
                          Inl e \<Rightarrow> (meta_failure e, w1)
                        | Inr name \<Rightarrow>
                            (json_response
                               [(''name'', JStr name),
                                (''size'',
                                 JNum (case h_get (rheaders res) ''content-length'' of
                                         None \<Rightarrow> 0
                                       | Some l \<Rightarrow>
                                           (case Number p l of None \<Rightarrow> 0 | Some x \<Rightarrow> x))),
                                (''type'', JStr (detectType target)),
                                (''ok'', JBool True)] 200, w1)))))"

subsection \<open>The router\<close>

text \<open>
  The chain of \<^verbatim>\<open>if\<close> statements of \<^verbatim>\<open>fetch\<close>, in the order of the source: \<open>route\<close>
  is the branch a request takes, \<open>fetch\<close> runs the body of that branch. Its result is
  \<open>Inr\<close> for a response and \<open>Inl\<close> for an exception that no handler catches.
\<close>

datatype route =
    Preflight
  | UiRender
  | ShortLinkProxy string
  | ApiShorten
  | ApiMeta
  | BadRequest
  | ProxyHandler string

definition route :: "request \<Rightarrow> route" where
  "route request =
     (if req_method request = ''OPTIONS'' then Preflight
      else if req_pathname request = ''/'' then UiRender
      else if startsWith (req_pathname request) ''/d/''
        then ShortLinkProxy (drop 3 (req_pathname request))
      else if req_pathname request = ''/api/shorten'' \<and> req_method request = ''POST''
        then ApiShorten
      else if req_pathname request = ''/api/meta'' then ApiMeta
      else (let rawPath = drop 1 (req_pathname request)
            in if rawPath = [] then BadRequest else ProxyHandler rawPath))"

definition proxy_target :: "platform \<Rightarrow> string \<Rightarrow> exn + string" where
  "proxy_target p rawPath =
     (if startsWith rawPath ''https'' \<or> startsWith rawPath ''http'' then normalize_url p rawPath
      else if startsWith rawPath ''github.com'' \<or> startsWith rawPath ''raw.githubusercontent.com''
        then normalize_url p (''https://'' @ rawPath)
      else normalize_url p rawPath)"

definition ui_response :: "string \<Rightarrow> response" where
  "ui_response origin =
     \<lparr>status = 200,
      rheaders = h_set_all
                   [(''content-type'', ''text/html; charset=UTF-8''),
                    (''x-content-type-options'', ''nosniff''),
                    (''Strict-Transport-Security'', ''max-age=31536000; includeSubDomains'')] [],
      rbody = BRenderUI origin\<rparr>"

definition fetch ::
    "platform \<Rightarrow> request \<Rightarrow> world \<Rightarrow> (exn + response) \<times> world" where
  "fetch p request w =
     (case route request of
        Preflight \<Rightarrow>
          (Inr \<lparr>status = 200, rheaders = h_set_all CORS_HEADERS [], rbody = BNull\<rparr>, w)
      | UiRender \<Rightarrow> (Inr (ui_response (req_origin request)), w)
      | ShortLinkProxy code \<Rightarrow>
          (case resolve code w of
             (None, w1) \<Rightarrow>
               (Inr \<lparr>status = 404,
                     rheaders = h_set_all [(''content-type'', ''text/html; charset=UTF-8'')] [],
                     rbody = BRender404\<rparr>, w1)
           | (Some target, w1) \<Rightarrow> proxyFetch p target request w1)
      | ApiShorten \<Rightarrow> (case api_shorten p request w of (resp, w1) \<Rightarrow> (Inr resp, w1))
      | ApiMeta \<Rightarrow> (case api_meta p request w of (resp, w1) \<Rightarrow> (Inr resp, w1))
      | BadRequest \<Rightarrow> (Inr (text_response ''Bad Request'' 400), w)
      | ProxyHandler rawPath \<Rightarrow>
          (case proxy_target p rawPath of
             Inl e \<Rightarrow> (Inr (text_response ''Invalid URL format'' 400), w)
           | Inr target \<Rightarrow> proxyFetch p target request w))"

subsection \<open>Notions used to state the properties\<close>

text \<open>
  The \<open>k\<close>-th candidate code the loop of \<open>create\<close> would draw from the world \<open>w\<close>
  (\<open>k = 0\<close> is the first): six draws from position \<open>random_pos w + 6 * k\<close>.
\<close>

definition candidate :: "world \<Rightarrow> nat \<Rightarrow> string" where
  "candidate w k = fst (makeShortCode 6 (w\<lparr>random_pos := random_pos w + 6 * k\<rparr>))"



text \<open>\<^verbatim>\<open>Math.random()\<close> returns a number in the interval from 0 (inclusive) to 1.\<close>

definition random_ok :: "world \<Rightarrow> bool" where
  "random_ok w = (\<forall>i. 0 \<le> random_src w i \<and> random_src w i < 1)"

text \<open>
  The headers the interface description lists for the proxy and cache paths: the three
  CORS headers, the cache-status marker, the product header and a
  \<^verbatim>\<open>Content-Disposition\<close> naming an encoded file name.
\<close>

definition attachment_prefix :: string where
  "attachment_prefix = ''attachment; filename*=UTF-8'' @ [apos, apos]"

definition names_attachment :: "headers \<Rightarrow> bool" where
  "names_attachment h =
     (case h_get h ''Content-Disposition'' of
        None \<Rightarrow> False
      | Some v \<Rightarrow> startsWith v attachment_prefix)"

definition carries_proxy_headers :: "response \<Rightarrow> bool" where
  "carries_proxy_headers resp =
     (h_get (rheaders resp) ''Access-Control-Allow-Origin'' = Some ''*''
      \<and> h_get (rheaders resp) ''Access-Control-Allow-Methods'' = Some ''GET, HEAD, POST, OPTIONS''
      \<and> h_get (rheaders resp) ''Access-Control-Allow-Headers'' = Some ''Content-Type, Range''
      \<and> h_get (rheaders resp) ''X-Cache-Status'' \<in> {Some ''HIT'', Some ''MISS'', Some ''BYPASS''}
      \<and> h_get (rheaders resp) ''X-Powered-By'' = Some ''GitMirror-Pro''
      \<and> names_attachment (rheaders resp))"

text \<open>
  The specification's wording of the first step of normalisation: a string has a
  \<^verbatim>\<open>scheme://\<close> prefix when it starts with a URI scheme (a letter, then letters,
  digits, \<^verbatim>\<open>+\<close>, \<^verbatim>\<open>-\<close>, \<^verbatim>\<open>.\<close>) followed by \<^verbatim>\<open>://\<close>.
\<close>

definition scheme_char :: "char \<Rightarrow> bool" where
  "scheme_char c =
     (c \<in> set ''abcdefghijklmnopqrstuvwxyzABCDEFGHIJKLMNOPQRSTUVWXYZ0123456789+-.'')"

definition spec_has_scheme_prefix :: "string \<Rightarrow> bool" where
  "spec_has_scheme_prefix s =
     (let sch = takeWhile scheme_char s
      in sch \<noteq> [] \<and> hd sch \<in> set ''abcdefghijklmnopqrstuvwxyzABCDEFGHIJKLMNOPQRSTUVWXYZ''
         \<and> startsWith (dropWhile scheme_char s) ''://'')"

subsection \<open>A small platform and world to run the worker on\<close>

text \<open>
  A reduced URL parser: \<^verbatim>\<open>https://\<close>, an authority up to the first \<^verbatim>\<open>/\<close>, with an
  optional port, and the path. It agrees with the platform's parser on the URLs used
  below. The digest is replaced by the identity, which has no collisions.
\<close>

definition example_parse :: "string \<Rightarrow> string + url" where
  "example_parse s =
     (let rest = drop 8 s;
          auth = takeWhile (\<lambda>c. c \<noteq> CHR ''/'') rest;
          path = dropWhile (\<lambda>c. c \<noteq> CHR ''/'') rest
      in if toLowerCase (take 8 s) = ''https://'' \<and> takeWhile (\<lambda>c. c \<noteq> CHR '':'') auth \<noteq> []
         then Inr \<lparr>protocol = ''https:'', userinfo = [],
                   hostname = toLowerCase (takeWhile (\<lambda>c. c \<noteq> CHR '':'') auth),
                   port = drop 1 (dropWhile (\<lambda>c. c \<noteq> CHR '':'') auth),
                   pathname = (if path = [] then ''/'' else path),
                   search = [], hash = []\<rparr>
         else Inl ''Invalid URL'')"

definition example_platform :: platform where
  "example_platform =
     \<lparr>URL_parse = example_parse,
      sha1 = (\<lambda>s. s),
      encodeURIComponent = (\<lambda>s. s),
      decodeURIComponent = (\<lambda>s. if CHR ''%'' \<in> set s then Inl ''URI malformed'' else Inr s),
      Number = (\<lambda>s. None)\<rparr>"

text \<open>
  An empty store and cache, a random source that always returns 0 (every candidate
  code is \<^verbatim>\<open>aaaaaa\<close>), and an upstream that answers every request with \<open>res\<close>.
\<close>

definition example_world :: "(exn + response) \<Rightarrow> world" where
  "example_world res =
     \<lparr>SHORT_KV = Map.empty, cache = Map.empty, waitUntil = [],
      random_src = (\<lambda>i. 0), random_pos = 0,
      upstream = (\<lambda>fr. res), trace = []\<rparr>"

definition example_request :: "string \<Rightarrow> string \<Rightarrow> headers \<Rightarrow> request" where
  "example_request meth path hs =
     \<lparr>req_method = meth, req_pathname = path, req_origin = ''https://mirror.example'',
      req_query_url = None, req_headers = hs, req_json = Inr None\<rparr>"

definition zip_response :: response where
  "zip_response =
     \<lparr>status = 200, rheaders = [(''content-type'', ''application/zip'')], rbody = BStream ''PK''\<rparr>"


text \<open>
  A store in which the only candidate code is already taken, and the store after a first
  URL and then a second one have been shortened from the empty world.
\<close>

definition occupied_world :: world where
  "occupied_world =
     (example_world (Inr zip_response))
       \<lparr>SHORT_KV := [''c:aaaaaa'' \<mapsto> ''https://github.com/x/y'']\<rparr>"

definition collision_world :: world where
  "collision_world =
     snd (create example_platform ''https://github.com/x/y''
            (snd (create example_platform ''  github.com/a/b ''
                    (example_world (Inr zip_response)))))"

section \<open>Properties\<close>

declare string_of_nat.simps [simp del]
declare code_loop.simps [simp del]

subsection \<open>Headers\<close>

lemma lower_char_idem: "lower_char (lower_char c) = lower_char c"
  by (simp add: lower_char_def)

lemma toLowerCase_idem: "toLowerCase (toLowerCase s) = toLowerCase s"
  by (simp add: toLowerCase_def lower_char_idem)

lemma same_name_toLowerCase: "same_name (toLowerCase n) m = same_name n m"
  by (simp add: same_name_def toLowerCase_idem)

lemma h_delete_comm: "h_delete a (h_delete b h) = h_delete b (h_delete a h)"
  by (induction h) (auto simp: h_delete_def)

lemma h_delete_same: "same_name a b \<Longrightarrow> h_delete a (h_delete b h) = h_delete b h"
  by (induction h) (auto simp: h_delete_def same_name_def)

lemma h_delete_cong: "same_name a b \<Longrightarrow> h_delete a h = h_delete b h"
  by (induction h) (auto simp: h_delete_def same_name_def)

lemma h_delete_h_set:
  "h_delete a (h_set k v h) =
     (if same_name k a then h_delete a h else h_set k v (h_delete a h))"
proof (cases "same_name k a")
  case True
  then have "h_delete a (h_delete k h) = h_delete a h"
    using h_delete_cong [OF True] h_delete_same [of k k h] by (simp add: same_name_def)
  with True show ?thesis
    by (simp add: h_set_def h_delete_def same_name_toLowerCase)
next
  case False
  then show ?thesis
    using h_delete_comm [of a k h]
    by (simp add: h_set_def h_delete_def same_name_toLowerCase)
qed

lemma h_get_h_delete:
  "h_get (h_delete n h) m = (if same_name n m then None else h_get h m)"
  by (induction h) (auto simp: h_delete_def same_name_def)

lemma h_get_append:
  "h_get (h @ h') m = (case h_get h m of None \<Rightarrow> h_get h' m | Some v \<Rightarrow> Some v)"
  by (induction h) auto

lemma h_get_h_set:
  "h_get (h_set n v h) m = (if same_name n m then Some v else h_get h m)"
  by (auto simp add: h_set_def h_get_append h_get_h_delete same_name_toLowerCase
      split: option.splits)

subsection \<open>The upstream request headers\<close>

text \<open>
  Removing the \<^verbatim>\<open>User-Agent\<close> from the kept headers is the same as never having seen
  one in the client request.
\<close>

lemma kept_without_user_agent:
  "h_delete ''User-Agent''
     (fold (\<lambda>(k, v) acc. if toLowerCase k \<in> set headersToKeep then h_set k v acc else acc) h acc)
   = fold (\<lambda>(k, v) acc. if toLowerCase k \<in> set headersToKeep then h_set k v acc else acc)
       (filter (\<lambda>(k, v). \<not> same_name k ''User-Agent'') h) (h_delete ''User-Agent'' acc)"
proof (induction h arbitrary: acc)
  case Nil
  show ?case by simp
next
  case (Cons kv h)
  obtain k v where kv: "kv = (k, v)" by (cases kv)
  show ?case
  proof (cases "same_name k ''User-Agent''")
    case True
    then have "toLowerCase k \<in> set headersToKeep"
      by (simp add: same_name_def headersToKeep_def toLowerCase_def lower_char_def)
    with True show ?thesis
      by (simp add: kv Cons.IH h_delete_h_set)
  next
    case False
    then show ?thesis
      by (simp add: kv Cons.IH h_delete_h_set)
  qed
qed

lemma upstreamHeaders_of_filter:
  "upstreamHeaders_of h =
     fold (\<lambda>(k, v) acc. if toLowerCase k \<in> set headersToKeep then h_set k v acc else acc)
       (filter (\<lambda>(k, v). \<not> same_name k ''User-Agent'') h) []
     @ [(''user-agent'', ''Mozilla/5.0 (GitMirror)'')]"
proof -
  have e: "h_delete ''User-Agent'' [] = []" by (simp add: h_delete_def)
  have l: "toLowerCase ''User-Agent'' = ''user-agent''"
    by (simp add: toLowerCase_def lower_char_def)
  show ?thesis
    unfolding upstreamHeaders_of_def
    by (subst h_set_def) (simp only: kept_without_user_agent e l)
qed

text \<open>
  C9. The upstream request always carries the fixed \<^verbatim>\<open>User-Agent\<close>
  \<^verbatim>\<open>Mozilla/5.0 (GitMirror)\<close>: two client requests whose headers are the same once their
  \<^verbatim>\<open>User-Agent\<close> entries are left out (so they differ at most in that header, present
  or not, whatever its value) produce identical upstream request headers, although
  \<^verbatim>\<open>user-agent\<close> is in the keep-list.
\<close>

theorem upstream_user_agent_fixed:
  assumes "filter (\<lambda>(k, v). \<not> same_name k ''User-Agent'') (req_headers r1)
           = filter (\<lambda>(k, v). \<not> same_name k ''User-Agent'') (req_headers r2)"
  shows "upstreamHeaders_of (req_headers r1) = upstreamHeaders_of (req_headers r2)
         \<and> h_get (upstreamHeaders_of (req_headers r1)) ''User-Agent''
             = Some ''Mozilla/5.0 (GitMirror)''"
proof
  show "upstreamHeaders_of (req_headers r1) = upstreamHeaders_of (req_headers r2)"
    by (simp add: upstreamHeaders_of_filter assms)
  show "h_get (upstreamHeaders_of (req_headers r1)) ''User-Agent''
          = Some ''Mozilla/5.0 (GitMirror)''"
    by (simp add: upstreamHeaders_of_def h_get_h_set same_name_def)
qed

theorem upstream_user_agent_fixed_witness:
  "upstreamHeaders_of [(''User-Agent'', ''curl/8.0''), (''Accept'', ''*/*''), (''Cookie'', ''a=b'')]
     = upstreamHeaders_of [(''Accept'', ''*/*''), (''Cookie'', ''a=b''), (''user-agent'', ''Firefox'')]
   \<and> upstreamHeaders_of [(''Accept'', ''*/*''), (''Cookie'', ''a=b''), (''user-agent'', ''Firefox'')]
     = [(''accept'', ''*/*''), (''user-agent'', ''Mozilla/5.0 (GitMirror)'')]"
proof -
  let ?r1 = "example_request ''GET'' ''/x''
               [(''User-Agent'', ''curl/8.0''), (''Accept'', ''*/*''), (''Cookie'', ''a=b'')]"
  let ?r2 = "example_request ''GET'' ''/x''
               [(''Accept'', ''*/*''), (''Cookie'', ''a=b''), (''user-agent'', ''Firefox'')]"
  have f: "filter (\<lambda>(k, v). \<not> same_name k ''User-Agent'') (req_headers ?r1)
           = filter (\<lambda>(k, v). \<not> same_name k ''User-Agent'') (req_headers ?r2)"
    by (simp add: example_request_def same_name_def toLowerCase_def lower_char_def)
  have "upstreamHeaders_of [(''Accept'', ''*/*''), (''Cookie'', ''a=b''), (''user-agent'', ''Firefox'')]
     = [(''accept'', ''*/*''), (''user-agent'', ''Mozilla/5.0 (GitMirror)'')]"
    by (simp add: upstreamHeaders_of_def headersToKeep_def h_set_def h_delete_def same_name_def
        toLowerCase_def lower_char_def)
  then show ?thesis
    using upstream_user_agent_fixed [OF f] by (simp add: example_request_def)
qed

subsection \<open>Normalisation\<close>

lemma length_toLowerCase: "length (toLowerCase s) = length s"
  by (simp add: toLowerCase_def)

text \<open>The regular expression of \<^verbatim>\<open>normalize\<close>, read declaratively.\<close>

lemma has_http_prefix_iff:
  "has_http_prefix s \<longleftrightarrow>
     (\<exists>pre rest. s = pre @ rest \<and> toLowerCase pre \<in> {''http://'', ''https://''})"
proof
  assume "has_http_prefix s"
  then consider "toLowerCase (take 7 s) = ''http://''" | "toLowerCase (take 8 s) = ''https://''"
    by (auto simp: has_http_prefix_def)
  then show "\<exists>pre rest. s = pre @ rest \<and> toLowerCase pre \<in> {''http://'', ''https://''}"
  proof cases
    case 1
    have "s = take 7 s @ drop 7 s" by simp
    with 1 show ?thesis by blast
  next
    case 2
    have "s = take 8 s @ drop 8 s" by simp
    with 2 show ?thesis by blast
  qed
next
  assume "\<exists>pre rest. s = pre @ rest \<and> toLowerCase pre \<in> {''http://'', ''https://''}"
  then obtain pre rest where s: "s = pre @ rest"
    and pre: "toLowerCase pre = ''http://'' \<or> toLowerCase pre = ''https://''" by auto
  from pre show "has_http_prefix s"
  proof
    assume a: "toLowerCase pre = ''http://''"
    have "length pre = length (toLowerCase pre)" by (simp add: length_toLowerCase)
    also have "\<dots> = 7" by (simp add: a)
    finally have "take 7 s = pre" by (simp add: s)
    with a show ?thesis by (simp add: has_http_prefix_def)
  next
    assume a: "toLowerCase pre = ''https://''"
    have "length pre = length (toLowerCase pre)" by (simp add: length_toLowerCase)
    also have "\<dots> = 8" by (simp add: a)
    finally have "take 8 s = pre" by (simp add: s)
    with a show ?thesis by (simp add: has_http_prefix_def)
  qed
qed

lemma urlStr_of_example: "urlStr_of ''  github.com/a/b '' = ''https://github.com/a/b''"
  by (simp add: urlStr_of_def trim_def is_space_def has_http_prefix_def toLowerCase_def
      lower_char_def)

lemma example_parse_a_b:
  "example_parse ''https://github.com/a/b''
     = Inr \<lparr>protocol = ''https:'', userinfo = [], hostname = ''github.com'', port = [],
            pathname = ''/a/b'', search = [], hash = []\<rparr>"
  by (simp add: example_parse_def toLowerCase_def lower_char_def)

text \<open>
  C4, as the code has it. \<^verbatim>\<open>normalize\<close> trims the input and prepends \<^verbatim>\<open>https://\<close>
  exactly when the trimmed string does not start with \<^verbatim>\<open>http://\<close> or \<^verbatim>\<open>https://\<close>
  (in any letter case); it fails with the parser's \<^verbatim>\<open>TypeError\<close> exactly when the
  resulting string does not parse, with \<^verbatim>\<open>Host not allowed\<close> exactly when the parsed
  hostname is outside the five-host allow-list, and otherwise returns the parser's
  \<^verbatim>\<open>href\<close>.
\<close>

theorem normalize_cases:
  "urlStr_of raw =
     (if \<exists>pre rest. trim raw = pre @ rest \<and> toLowerCase pre \<in> {''http://'', ''https://''}
      then trim raw else ''https://'' @ trim raw)
   \<and> (normalize_url p raw = Inl (TypeError m) \<longleftrightarrow> URL_parse p (urlStr_of raw) = Inl m)
   \<and> (normalize_url p raw = Inl (Error ''Host not allowed'') \<longleftrightarrow>
        (\<exists>u. URL_parse p (urlStr_of raw) = Inr u
           \<and> hostname u \<notin> {''github.com'', ''raw.githubusercontent.com'',
                ''objects.githubusercontent.com'', ''releases.githubusercontent.com'',
                ''gist.githubusercontent.com''}))
   \<and> (normalize_url p raw = Inr t \<longleftrightarrow>
        (\<exists>u. URL_parse p (urlStr_of raw) = Inr u
           \<and> hostname u \<in> {''github.com'', ''raw.githubusercontent.com'',
                ''objects.githubusercontent.com'', ''releases.githubusercontent.com'',
                ''gist.githubusercontent.com''}
           \<and> t = href u))"
proof (intro conjI)
  show "urlStr_of raw =
     (if \<exists>pre rest. trim raw = pre @ rest \<and> toLowerCase pre \<in> {''http://'', ''https://''}
      then trim raw else ''https://'' @ trim raw)"
    using has_http_prefix_iff [of "trim raw"] by (simp add: urlStr_of_def Let_def)
  show "normalize_url p raw = Inl (TypeError m) \<longleftrightarrow> URL_parse p (urlStr_of raw) = Inl m"
    by (auto simp: normalize_url_def split: sum.splits)
  show "normalize_url p raw = Inl (Error ''Host not allowed'') \<longleftrightarrow>
        (\<exists>u. URL_parse p (urlStr_of raw) = Inr u
           \<and> hostname u \<notin> {''github.com'', ''raw.githubusercontent.com'',
                ''objects.githubusercontent.com'', ''releases.githubusercontent.com'',
                ''gist.githubusercontent.com''})"
    by (auto simp: normalize_url_def allowed_def split: sum.splits)
  show "normalize_url p raw = Inr t \<longleftrightarrow>
        (\<exists>u. URL_parse p (urlStr_of raw) = Inr u
           \<and> hostname u \<in> {''github.com'', ''raw.githubusercontent.com'',
                ''objects.githubusercontent.com'', ''releases.githubusercontent.com'',
                ''gist.githubusercontent.com''}
           \<and> t = href u)"
    by (auto simp: normalize_url_def allowed_def split: sum.splits)
qed

theorem normalize_cases_witness:
  "normalize_url example_platform ''  github.com/a/b '' = Inr ''https://github.com/a/b''"
  using normalize_cases
    [of "''  github.com/a/b ''" example_platform "''x''" "''https://github.com/a/b''"]
  by (simp add: urlStr_of_example example_platform_def example_parse_a_b href_def)

text \<open>
  C4 as stated fails: \<^verbatim>\<open>ftp://github.com/a\<close> has a \<^verbatim>\<open>scheme://\<close> prefix, and
  \<^verbatim>\<open>https://\<close> is prepended all the same.
\<close>

theorem normalize_scheme_counterexample:
  "spec_has_scheme_prefix (trim ''ftp://github.com/a'')
   \<and> urlStr_of ''ftp://github.com/a'' = ''https://ftp://github.com/a''"
  by (simp add: spec_has_scheme_prefix_def scheme_char_def startsWith_def urlStr_of_def trim_def
      is_space_def has_http_prefix_def toLowerCase_def lower_char_def)

subsection \<open>The router\<close>

text \<open>
  C10. Every request that is not \<^verbatim>\<open>OPTIONS\<close> and whose path is exactly \<^verbatim>\<open>/\<close> gets the
  HTML UI, whatever its method, and nothing else happens; and the \<^verbatim>\<open>Bad Request\<close>
  branch of the proxy handler is never taken by a request whose parsed pathname starts
  with \<^verbatim>\<open>/\<close>, as the pathname of every HTTP request URL does.
\<close>

theorem root_path_renders_ui:
  "(req_method r \<noteq> ''OPTIONS'' \<and> req_pathname r = ''/''
      \<longrightarrow> fetch p r w = (Inr (ui_response (req_origin r)), w))
   \<and> (startsWith (req_pathname r) ''/'' \<longrightarrow> route r \<noteq> BadRequest)"
proof (intro conjI impI)
  assume "req_method r \<noteq> ''OPTIONS'' \<and> req_pathname r = ''/''"
  then show "fetch p r w = (Inr (ui_response (req_origin r)), w)"
    by (simp add: fetch_def route_def)
next
  assume sw: "startsWith (req_pathname r) ''/''"
  then obtain rest where pn: "req_pathname r = CHR ''/'' # rest"
    by (cases "req_pathname r") (auto simp: startsWith_def)
  show "route r \<noteq> BadRequest"
    by (cases rest) (simp_all add: route_def pn Let_def)
qed

theorem root_path_renders_ui_witness:
  "fetch example_platform (example_request ''POST'' ''/'' []) (example_world (Inl (Error ''down'')))
     = (Inr (ui_response ''https://mirror.example''), example_world (Inl (Error ''down'')))
   \<and> route (example_request ''POST'' ''/'' []) \<noteq> BadRequest"
  using root_path_renders_ui
    [of "example_request ''POST'' ''/'' []" example_platform "example_world (Inl (Error ''down''))"]
  by (simp add: example_request_def startsWith_def)

subsection \<open>The proxy engine\<close>

lemma cache_ttl_text: "string_of_nat CACHE_TTL = ''31536000''"
  by (simp add: CACHE_TTL_def string_of_nat.simps)

lemma emit_fields [simp]:
  "SHORT_KV (emit e w) = SHORT_KV w" "cache (emit e w) = cache w"
  "waitUntil (emit e w) = waitUntil w" "random_src (emit e w) = random_src w"
  "random_pos (emit e w) = random_pos w" "upstream (emit e w) = upstream w"
  "trace (emit e w) = trace w @ [e]"
  by (simp_all add: emit_def)

lemma proxy_upstream_success:
  assumes "upstream w (upstream_request target r) = Inr up"
    and "getFilename p target up = Inr name"
  shows "proxy_upstream p target key r isRange w =
           (Inr (rewrite_response p up isRange r name),
            if cacheable up isRange r
            then (emit (Fetch (upstream_request target r)) w)
                   \<lparr>waitUntil := waitUntil w @ [(key, rewrite_response p up isRange r name)]\<rparr>
            else emit (Fetch (upstream_request target r)) w)"
  using assms by (simp add: proxy_upstream_def do_fetch_def Let_def)

lemma proxy_upstream_fetch_fails:
  assumes "upstream w (upstream_request target r) = Inl err"
  shows "proxy_upstream p target key r isRange w =
           (Inr (upstream_error err), emit (Fetch (upstream_request target r)) w)"
  using assms by (simp add: proxy_upstream_def do_fetch_def)

lemma proxy_upstream_name_fails:
  assumes "upstream w (upstream_request target r) = Inr up"
    and "getFilename p target up = Inl err"
  shows "proxy_upstream p target key r isRange w =
           (Inr (upstream_error err), emit (Fetch (upstream_request target r)) w)"
  using assms by (simp add: proxy_upstream_def do_fetch_def)

lemma getFilename_parses:
  "getFilename p target up = Inr name \<Longrightarrow> \<exists>key. URL_parse p target = Inr key"
  by (cases "URL_parse p target") (simp_all add: getFilename_def)

lemma proxyFetch_not_url:
  "URL_parse p target = Inl m \<Longrightarrow> proxyFetch p target r w = (Inl (TypeError m), w)"
  by (simp add: proxyFetch_def)


lemma proxyFetch_miss:
  assumes "URL_parse p target = Inr key"
    and "\<not> h_has (req_headers r) ''Range''" and "req_method r = ''GET''"
    and "cache w (href key) = None"
  shows "proxyFetch p target r w
           = proxy_upstream p target (href key) r False (emit (CacheMatch (href key)) w)"
  using assms by (simp add: proxyFetch_def Let_def cache_match_def)

lemma proxyFetch_no_lookup:
  assumes "URL_parse p target = Inr key"
    and "\<not> (\<not> h_has (req_headers r) ''Range'' \<and> req_method r = ''GET'')"
  shows "proxyFetch p target r w
           = proxy_upstream p target (href key) r (h_has (req_headers r) ''Range'') w"
  using assms by (auto simp add: proxyFetch_def Let_def)

lemma rewrite_cache_control:
  "h_get (rheaders (rewrite_response p up isRange r name)) ''Cache-Control''
     = Some (if cacheable up isRange r then ''public, max-age=31536000, immutable''
             else ''no-store'')"
  by (simp add: rewrite_response_def Let_def h_get_h_set same_name_def cache_ttl_text)

lemma rewrite_status: "status (rewrite_response p up isRange r name) = status up"
  by (simp add: rewrite_response_def Let_def)


lemma lower_names:
  "toLowerCase ''Access-Control-Allow-Origin'' = ''access-control-allow-origin''"
  "toLowerCase ''Access-Control-Allow-Methods'' = ''access-control-allow-methods''"
  "toLowerCase ''Access-Control-Allow-Headers'' = ''access-control-allow-headers''"
  "toLowerCase ''X-Cache-Status'' = ''x-cache-status''"
  "toLowerCase ''X-Powered-By'' = ''x-powered-by''"
  "toLowerCase ''Content-Disposition'' = ''content-disposition''"
  "toLowerCase ''Cache-Control'' = ''cache-control''"
  "toLowerCase ''content-type'' = ''content-type''"
  "toLowerCase ''Range'' = ''range''"
  by (simp_all add: toLowerCase_def lower_char_def)

lemma rewrite_cache_status:
  "h_get (rheaders (rewrite_response p up isRange r name)) ''X-Cache-Status''
     = Some (if isRange then ''BYPASS'' else ''MISS'')"
  by (simp add: rewrite_response_def Let_def h_get_h_set same_name_def lower_names)



lemma upstream_error_bare:
  "h_get (rheaders (upstream_error err)) ''Access-Control-Allow-Origin'' = None"
  "h_get (rheaders (upstream_error err)) ''X-Cache-Status'' = None"
  "h_get (rheaders (upstream_error err)) ''Cache-Control'' = None"
  "\<not> carries_proxy_headers (upstream_error err)"
  by (simp_all add: upstream_error_def text_response_def carries_proxy_headers_def same_name_def
      lower_names)

lemma getFilename_example:
  "getFilename example_platform ''https://github.com/a/b'' zip_response = Inr ''b''"
  by (simp add: getFilename_def example_platform_def example_parse_a_b split_pop_def
      zip_response_def same_name_def lower_names truthy_def
      toLowerCase_def lower_char_def)

lemma URL_parse_example:
  "URL_parse example_platform ''https://github.com/a/b''
     = Inr \<lparr>protocol = ''https:'', userinfo = [], hostname = ''github.com'', port = [],
            pathname = ''/a/b'', search = [], hash = []\<rparr>"
  "href \<lparr>protocol = ''https:'', userinfo = [], hostname = ''github.com'', port = [],
         pathname = ''/a/b'', search = [], hash = []\<rparr> = ''https://github.com/a/b''"
  by (simp_all add: example_platform_def example_parse_a_b href_def)

lemma has_range_example: "h_has [(''Range'', ''bytes=0-9'')] ''Range''"
  by (simp add: h_has_def same_name_def)

text \<open>
  C5. For every upstream response that is passed on to the client (the target is a URL,
  the request is not served from the cache, and the file name is derived without an
  exception), the client-visible \<^verbatim>\<open>Cache-Control\<close> is the long immutable directive if and
  only if the upstream status is exactly 200 and the request is a \<^verbatim>\<open>GET\<close> without a
  \<^verbatim>\<open>Range\<close> header, and \<^verbatim>\<open>no-store\<close> in every other case; a copy of the response is
  handed to \<^verbatim>\<open>ctx.waitUntil\<close> for the cache in the former case only, and the cache
  itself is not written before the handler returns. (When the derivation of the file
  name throws, the upstream response is not passed on: the answer is the 502 error and
  nothing is queued.)
\<close>

theorem cache_control_rule:
  assumes "URL_parse p target = Inr key"
    and "upstream w (upstream_request target r) = Inr up"
    and "\<not> h_has (req_headers r) ''Range'' \<and> req_method r = ''GET''
           \<longrightarrow> cache w (href key) = None"
  shows "\<exists>resp w'.
           proxyFetch p target r w = (Inr resp, w')
           \<and> cache w' = cache w
           \<and> (case getFilename p target up of
                Inl err \<Rightarrow> resp = upstream_error err \<and> waitUntil w' = waitUntil w
              | Inr name \<Rightarrow>
                  status resp = status up
                  \<and> h_get (rheaders resp) ''Cache-Control''
                      = Some (if status up = 200 \<and> \<not> h_has (req_headers r) ''Range''
                                 \<and> req_method r = ''GET''
                              then ''public, max-age=31536000, immutable'' else ''no-store'')
                  \<and> waitUntil w'
                      = (if status up = 200 \<and> \<not> h_has (req_headers r) ''Range''
                            \<and> req_method r = ''GET''
                         then waitUntil w @ [(href key, resp)] else waitUntil w))"
proof (cases "\<not> h_has (req_headers r) ''Range'' \<and> req_method r = ''GET''")
  case True
  with assms(3) have miss: "cache w (href key) = None" by simp
  have up': "upstream (emit (CacheMatch (href key)) w) (upstream_request target r) = Inr up"
    using assms(2) by simp
  from True have g: "\<not> h_has (req_headers r) ''Range''" "req_method r = ''GET''" by simp_all
  show ?thesis
  proof (cases "getFilename p target up")
    case (Inl err)
    show ?thesis
      by (simp add: proxyFetch_miss [OF assms(1) g miss]
          proxy_upstream_name_fails [OF up' Inl] Inl)
  next
    case (Inr name)
    show ?thesis
      using True
      by (simp add: proxyFetch_miss [OF assms(1) g miss] proxy_upstream_success [OF up' Inr]
          Inr rewrite_cache_control rewrite_status cacheable_def)
  qed
next
  case False
  show ?thesis
  proof (cases "getFilename p target up")
    case (Inl err)
    show ?thesis
      by (simp add: proxyFetch_no_lookup [OF assms(1) False]
          proxy_upstream_name_fails [OF assms(2) Inl] Inl)
  next
    case (Inr name)
    show ?thesis
      using False
      by (auto simp add: proxyFetch_no_lookup [OF assms(1) False]
          proxy_upstream_success [OF assms(2) Inr] Inr
          rewrite_cache_control rewrite_status cacheable_def)
  qed
qed

theorem cache_control_rule_witness:
  "h_get (rheaders (projr (fst (proxyFetch example_platform ''https://github.com/a/b''
        (example_request ''GET'' ''/github.com/a/b'' []) (example_world (Inr zip_response))))))
      ''Cache-Control'' = Some ''public, max-age=31536000, immutable''
   \<and> waitUntil (snd (proxyFetch example_platform ''https://github.com/a/b''
        (example_request ''GET'' ''/github.com/a/b'' []) (example_world (Inr zip_response))))
      = [(''https://github.com/a/b'',
          projr (fst (proxyFetch example_platform ''https://github.com/a/b''
            (example_request ''GET'' ''/github.com/a/b'' [])
            (example_world (Inr zip_response)))))]"
proof -
  let ?r = "example_request ''GET'' ''/github.com/a/b'' []"
  let ?w = "example_world (Inr zip_response)"
  have h1: "upstream ?w (upstream_request ''https://github.com/a/b'' ?r) = Inr zip_response"
    by (simp add: example_world_def)
  have h3: "\<not> h_has (req_headers ?r) ''Range'' \<and> req_method ?r = ''GET''
              \<longrightarrow> cache ?w (href \<lparr>protocol = ''https:'', userinfo = [],
                     hostname = ''github.com'', port = [], pathname = ''/a/b'', search = [],
                     hash = []\<rparr>) = None"
    by (simp add: example_world_def)
  have r: "\<not> h_has (req_headers ?r) ''Range''" "req_method ?r = ''GET''"
    by (simp_all add: example_request_def h_has_def)
  have z: "status zip_response = 200" "waitUntil ?w = []"
    by (simp_all add: zip_response_def example_world_def)
  from cache_control_rule [OF URL_parse_example(1) h1 h3]
  show ?thesis
    using r by (auto simp add: URL_parse_example(2) z getFilename_example)
qed

text \<open>
  C6, as the code has it. A request with a \<^verbatim>\<open>Range\<close> header makes no cache lookup (its
  only event, if any, is the upstream fetch) and queues no cache write, so the cache is
  unchanged; when the upstream answers and the file name is derived, the response
  carries \<^verbatim>\<open>X-Cache-Status: BYPASS\<close> and \<^verbatim>\<open>Cache-Control: no-store\<close>; when the upstream
  fetch fails, the response is the 502 error, which has neither header.
\<close>

theorem range_request_bypasses_cache:
  assumes "h_has (req_headers r) ''Range''"
  shows "case proxyFetch p target r w of
           (res, w') \<Rightarrow>
             cache w' = cache w \<and> waitUntil w' = waitUntil w
             \<and> trace w' = trace w @ (case URL_parse p target of
                                        Inl m \<Rightarrow> []
                                      | Inr key \<Rightarrow> [Fetch (upstream_request target r)])
             \<and> (\<forall>up name. upstream w (upstream_request target r) = Inr up
                    \<longrightarrow> getFilename p target up = Inr name
                    \<longrightarrow> (\<exists>resp. res = Inr resp
                           \<and> h_get (rheaders resp) ''X-Cache-Status'' = Some ''BYPASS''
                           \<and> h_get (rheaders resp) ''Cache-Control'' = Some ''no-store''))
             \<and> (\<forall>key err. URL_parse p target = Inr key
                    \<longrightarrow> upstream w (upstream_request target r) = Inl err
                    \<longrightarrow> res = Inr (upstream_error err)
                        \<and> h_get (rheaders (upstream_error err)) ''X-Cache-Status'' = None
                        \<and> h_get (rheaders (upstream_error err)) ''Cache-Control'' = None)"
proof (cases "URL_parse p target")
  case (Inl m)
  then have "\<And>up. getFilename p target up = Inl (TypeError m)"
    by (simp add: getFilename_def)
  then show ?thesis
    by (simp add: proxyFetch_not_url [OF Inl] Inl)
next
  case key: (Inr key)
  have nl: "\<not> (\<not> h_has (req_headers r) ''Range'' \<and> req_method r = ''GET'')"
    using assms by simp
  note pf = proxyFetch_no_lookup [OF key nl]
  show ?thesis
  proof (cases "upstream w (upstream_request target r)")
    case (Inl err)
    show ?thesis
      by (simp add: pf proxy_upstream_fetch_fails [OF Inl] Inl key upstream_error_bare)
  next
    case (Inr up)
    show ?thesis
    proof (cases "getFilename p target up")
      case (Inl err)
      show ?thesis
        by (simp add: pf proxy_upstream_name_fails [OF Inr Inl] Inr Inl key)
    next
      case name: (Inr name)
      show ?thesis
        using assms
        by (simp add: pf proxy_upstream_success [OF Inr name] Inr name key cacheable_def
            rewrite_cache_status rewrite_cache_control)
    qed
  qed
qed

theorem range_request_bypasses_cache_witness:
  "h_has [(''Range'', ''bytes=0-9'')] ''Range''
   \<and> h_get (rheaders (projr (fst (proxyFetch example_platform ''https://github.com/a/b''
          (example_request ''GET'' ''/github.com/a/b'' [(''Range'', ''bytes=0-9'')])
          (example_world (Inr zip_response))))))
        ''X-Cache-Status'' = Some ''BYPASS''
   \<and> trace (snd (proxyFetch example_platform ''https://github.com/a/b''
          (example_request ''GET'' ''/github.com/a/b'' [(''Range'', ''bytes=0-9'')])
          (example_world (Inr zip_response))))
       = [Fetch (upstream_request ''https://github.com/a/b''
            (example_request ''GET'' ''/github.com/a/b'' [(''Range'', ''bytes=0-9'')]))]"
proof -
  let ?r = "example_request ''GET'' ''/github.com/a/b'' [(''Range'', ''bytes=0-9'')]"
  have h: "h_has (req_headers ?r) ''Range''"
    by (simp add: example_request_def has_range_example)
  have t: "trace (example_world (Inr zip_response)) = []"
    "\<And>fr. upstream (example_world (Inr zip_response)) fr = Inr zip_response"
    by (simp_all add: example_world_def)
  show ?thesis
    using range_request_bypasses_cache
      [OF h, where p = example_platform and target = "''https://github.com/a/b''"
         and w = "example_world (Inr zip_response)"]
    by (auto simp add: split_beta t getFilename_example has_range_example URL_parse_example(1))
qed

text \<open>
  C6 as stated fails: when the upstream fetch of a \<^verbatim>\<open>Range\<close> request throws, the
  response is the 502 error, which has no \<^verbatim>\<open>X-Cache-Status\<close> header.
\<close>

theorem range_request_counterexample:
  "h_has (req_headers (example_request ''GET'' ''/github.com/a/b'' [(''Range'', ''bytes=0-9'')]))
     ''Range''
   \<and> fst (proxyFetch example_platform ''https://github.com/a/b''
          (example_request ''GET'' ''/github.com/a/b'' [(''Range'', ''bytes=0-9'')])
          (example_world (Inl (TypeError ''Network connection lost''))))
       = Inr (upstream_error (TypeError ''Network connection lost''))
   \<and> h_get (rheaders (upstream_error (TypeError ''Network connection lost'')))
        ''X-Cache-Status'' = None"
proof -
  let ?r = "example_request ''GET'' ''/github.com/a/b'' [(''Range'', ''bytes=0-9'')]"
  let ?w = "example_world (Inl (TypeError ''Network connection lost''))"
  have h: "h_has (req_headers ?r) ''Range''"
    by (simp add: example_request_def has_range_example)
  then have nl: "\<not> (\<not> h_has (req_headers ?r) ''Range'' \<and> req_method ?r = ''GET'')"
    by simp
  have u: "upstream ?w (upstream_request ''https://github.com/a/b'' ?r)
             = Inl (TypeError ''Network connection lost'')"
    by (simp add: example_world_def)
  show ?thesis
    using h by (simp add: proxyFetch_no_lookup [OF URL_parse_example(1) nl]
        proxy_upstream_fetch_fails [OF u] upstream_error_bare)
qed






subsection \<open>The metadata probe\<close>



lemma normalize_url_example:
  "normalize_url example_platform ''  github.com/a/b '' = Inr ''https://github.com/a/b''"
  by (simp add: normalize_url_def urlStr_of_example example_platform_def example_parse_a_b
      href_def allowed_def)





subsection \<open>The short-link registry\<close>

lemma makeShortCode_snd:
  "snd (makeShortCode n w) = w\<lparr>random_pos := random_pos w + n\<rparr>"
  by (induction n arbitrary: w) (simp_all add: Math_random_def split_beta)

lemma makeShortCode_fst_cong:
  "random_src w = random_src w' \<Longrightarrow> random_pos w = random_pos w'
     \<Longrightarrow> fst (makeShortCode n w) = fst (makeShortCode n w')"
proof (induction n arbitrary: w w')
  case 0
  show ?case by simp
next
  case (Suc n)
  have "fst (makeShortCode n (w\<lparr>random_pos := Suc (random_pos w)\<rparr>))
          = fst (makeShortCode n (w'\<lparr>random_pos := Suc (random_pos w')\<rparr>))"
    by (rule Suc.IH) (simp_all add: Suc.prems)
  then show ?case
    by (simp add: Math_random_def split_beta Suc.prems)
qed





lemma candidate_0: "makeShortCode 6 w = (candidate w 0, w\<lparr>random_pos := random_pos w + 6\<rparr>)"
  by (simp add: candidate_def prod_eq_iff makeShortCode_snd)

lemma candidate_shift:
  "random_src w' = random_src w \<Longrightarrow> random_pos w' = random_pos w + 6
     \<Longrightarrow> candidate w' j = candidate w (Suc j)"
  unfolding candidate_def by (rule makeShortCode_fst_cong) simp_all

lemma candidate_cong:
  "random_src w' = random_src w \<Longrightarrow> random_pos w' = random_pos w
     \<Longrightarrow> candidate w' j = candidate w j"
  unfolding candidate_def by (rule makeShortCode_fst_cong) simp_all

lemma code_loop_result:
  "retries < 5 \<Longrightarrow>
   \<exists>k. retries + k < 5
     \<and> code_loop w retries
         = (candidate w k, Suc (retries + k),
            w\<lparr>random_pos := random_pos w + 6 * Suc k,
              trace := trace w @ map (\<lambda>j. KvGet (''c:'' @ candidate w j)) [0..<Suc k]\<rparr>)
     \<and> (\<forall>j<k. truthy (SHORT_KV w (''c:'' @ candidate w j)))
     \<and> (Suc (retries + k) < 5 \<longrightarrow> \<not> truthy (SHORT_KV w (''c:'' @ candidate w k)))"
proof (induction "5 - retries" arbitrary: w retries)
  case 0
  then show ?case by simp
next
  case (Suc n)
  let ?c0 = "candidate w 0"
  let ?w2 = "emit (KvGet (''c:'' @ ?c0)) (w\<lparr>random_pos := random_pos w + 6\<rparr>)"
  have step: "code_loop w retries =
      (if truthy (SHORT_KV w (''c:'' @ ?c0)) \<and> Suc retries < 5 then code_loop ?w2 (Suc retries)
       else (?c0, Suc retries, ?w2))"
    by (subst code_loop.simps) (simp add: candidate_0 kv_get_def)
  show ?case
  proof (cases "truthy (SHORT_KV w (''c:'' @ ?c0)) \<and> Suc retries < 5")
    case False
    have "?w2 = w\<lparr>random_pos := random_pos w + 6 * Suc 0,
                trace := trace w @ map (\<lambda>j. KvGet (''c:'' @ candidate w j)) [0..<Suc 0]\<rparr>"
      by (simp add: emit_def)
    with False Suc.prems step show ?thesis
      by (intro exI [of _ 0]) auto
  next
    case True
    have n: "n = 5 - Suc retries" using Suc.hyps(2) by simp
    from True have lt: "Suc retries < 5" by simp
    from Suc.hyps(1) [OF n lt, of ?w2] obtain k where
      k: "Suc retries + k < 5"
      and loop: "code_loop ?w2 (Suc retries)
         = (candidate ?w2 k, Suc (Suc retries + k),
            ?w2\<lparr>random_pos := random_pos ?w2 + 6 * Suc k,
              trace := trace ?w2 @ map (\<lambda>j. KvGet (''c:'' @ candidate ?w2 j)) [0..<Suc k]\<rparr>)"
      and occ: "\<forall>j<k. truthy (SHORT_KV ?w2 (''c:'' @ candidate ?w2 j))"
      and free: "Suc (Suc retries + k) < 5 \<longrightarrow> \<not> truthy (SHORT_KV ?w2 (''c:'' @ candidate ?w2 k))"
      by blast
    have sh: "\<And>j. candidate ?w2 j = candidate w (Suc j)"
      by (rule candidate_shift) simp_all
    have w: "?w2\<lparr>random_pos := random_pos ?w2 + 6 * Suc k,
              trace := trace ?w2 @ map (\<lambda>j. KvGet (''c:'' @ candidate ?w2 j)) [0..<Suc k]\<rparr>
           = w\<lparr>random_pos := random_pos w + 6 * Suc (Suc k),
              trace := trace w @ map (\<lambda>j. KvGet (''c:'' @ candidate w j)) [0..<Suc (Suc k)]\<rparr>"
      unfolding sh by (subst (2) map_upt_Suc) (simp add: emit_def)
    have occ2: "\<forall>j<k. truthy (SHORT_KV w (''c:'' @ candidate w (Suc j)))"
      using occ unfolding sh by simp
    have free2: "Suc (Suc retries + k) < 5
                   \<longrightarrow> \<not> truthy (SHORT_KV w (''c:'' @ candidate w (Suc k)))"
      using free unfolding sh by simp
    have occ': "\<forall>j<Suc k. truthy (SHORT_KV w (''c:'' @ candidate w j))"
    proof (intro allI impI)
      fix j assume "j < Suc k"
      then show "truthy (SHORT_KV w (''c:'' @ candidate w j))"
        using True occ2 by (cases j) simp_all
    qed
    have res: "code_loop w retries
         = (candidate w (Suc k), Suc (retries + Suc k),
            w\<lparr>random_pos := random_pos w + 6 * Suc (Suc k),
              trace := trace w @ map (\<lambda>j. KvGet (''c:'' @ candidate w j)) [0..<Suc (Suc k)]\<rparr>)"
    proof -
      have "code_loop w retries = code_loop ?w2 (Suc retries)"
        unfolding step using True by (rule if_P)
      also note loop
      finally show ?thesis
        by (simp only: w) (simp only: sh add_Suc add_Suc_right)
    qed
    show ?thesis
      using k occ' free2 res
      by (intro exI [of _ "Suc k"]) simp
  qed
qed

lemma create_existing:
  assumes "normalize_url p u = Inr target"
    and "truthy (SHORT_KV w (''u:'' @ sha1 p target))"
  shows "create p u w
           = (Inr (the (SHORT_KV w (''u:'' @ sha1 p target)), target),
              emit (KvGet (''u:'' @ sha1 p target)) w)"
  using assms by (simp add: create_def Let_def kv_get_def)

lemma create_fresh:
  assumes "normalize_url p u = Inr target"
    and "\<not> truthy (SHORT_KV w (''u:'' @ sha1 p target))"
  shows "\<exists>k<5.
           create p u w
             = (Inr (candidate w k, target),
                kv_put (''u:'' @ sha1 p target) (candidate w k)
                  (kv_put (''c:'' @ candidate w k) target
                     (w\<lparr>random_pos := random_pos w + 6 * Suc k,
                        trace := trace w @ KvGet (''u:'' @ sha1 p target)
                                   # map (\<lambda>j. KvGet (''c:'' @ candidate w j)) [0..<Suc k]\<rparr>)))
           \<and> (\<forall>j<k. truthy (SHORT_KV w (''c:'' @ candidate w j)))
           \<and> (Suc k < 5 \<longrightarrow> \<not> truthy (SHORT_KV w (''c:'' @ candidate w k)))"
proof -
  let ?w1 = "emit (KvGet (''u:'' @ sha1 p target)) w"
  have c: "\<And>j. candidate ?w1 j = candidate w j"
    by (rule candidate_cong) simp_all
  from code_loop_result [of 0 ?w1] obtain k where
    k: "k < 5"
    and loop: "code_loop ?w1 0
         = (candidate ?w1 k, Suc k,
            ?w1\<lparr>random_pos := random_pos ?w1 + 6 * Suc k,
              trace := trace ?w1 @ map (\<lambda>j. KvGet (''c:'' @ candidate ?w1 j)) [0..<Suc k]\<rparr>)"
    and occ: "\<forall>j<k. truthy (SHORT_KV ?w1 (''c:'' @ candidate ?w1 j))"
    and free: "Suc k < 5 \<longrightarrow> \<not> truthy (SHORT_KV ?w1 (''c:'' @ candidate ?w1 k))"
    by auto
  have w: "?w1\<lparr>random_pos := random_pos ?w1 + 6 * Suc k,
              trace := trace ?w1 @ map (\<lambda>j. KvGet (''c:'' @ candidate ?w1 j)) [0..<Suc k]\<rparr>
         = w\<lparr>random_pos := random_pos w + 6 * Suc k,
             trace := trace w @ KvGet (''u:'' @ sha1 p target)
                        # map (\<lambda>j. KvGet (''c:'' @ candidate w j)) [0..<Suc k]\<rparr>"
    unfolding c by (simp add: emit_def)
  have cr: "create p u w
      = (case code_loop ?w1 0 of
           (code, retries, w2) \<Rightarrow>
             (Inr (code, target),
              kv_put (''u:'' @ sha1 p target) code (kv_put (''c:'' @ code) target w2)))"
    using assms by (simp add: create_def Let_def kv_get_def)
  have res: "create p u w
             = (Inr (candidate w k, target),
                kv_put (''u:'' @ sha1 p target) (candidate w k)
                  (kv_put (''c:'' @ candidate w k) target
                     (w\<lparr>random_pos := random_pos w + 6 * Suc k,
                        trace := trace w @ KvGet (''u:'' @ sha1 p target)
                                   # map (\<lambda>j. KvGet (''c:'' @ candidate w j)) [0..<Suc k]\<rparr>)))"
    unfolding cr loop w by (simp only: c prod.case)
  have occ2: "\<forall>j<k. truthy (SHORT_KV w (''c:'' @ candidate w j))"
    using occ unfolding c by simp
  have free2: "Suc k < 5 \<longrightarrow> \<not> truthy (SHORT_KV w (''c:'' @ candidate w k))"
    using free unfolding c by simp
  from k res occ2 free2 show ?thesis by blast
qed

lemma kv_put_fields [simp]:
  "SHORT_KV (kv_put k v w) = (SHORT_KV w)(k \<mapsto> v)" "cache (kv_put k v w) = cache w"
  "waitUntil (kv_put k v w) = waitUntil w" "random_src (kv_put k v w) = random_src w"
  "random_pos (kv_put k v w) = random_pos w" "upstream (kv_put k v w) = upstream w"
  "trace (kv_put k v w) = trace w @ [KvPut k v]"
  by (simp_all add: kv_put_def)

lemma normalize_url_nonempty: "normalize_url p u = Inr target \<Longrightarrow> target \<noteq> []"
  by (auto simp: normalize_url_def href_def split: sum.splits if_splits)

lemma pick_char_0: "pick_char 0 = ''a''"
  by (simp add: pick_char_def chars_def)

lemma makeShortCode_zero:
  "random_src w = (\<lambda>i. 0) \<Longrightarrow> fst (makeShortCode n w) = replicate n CHR ''a''"
proof (induction n arbitrary: w)
  case 0
  show ?case by simp
next
  case (Suc n)
  have "fst (makeShortCode n (w\<lparr>random_pos := Suc (random_pos w)\<rparr>)) = replicate n CHR ''a''"
    by (rule Suc.IH) (simp add: Suc.prems)
  then show ?case
    by (simp add: Math_random_def split_beta Suc.prems pick_char_0)
qed

lemma candidate_zero: "random_src w = (\<lambda>i. 0) \<Longrightarrow> candidate w k = ''aaaaaa''"
proof -
  assume "random_src w = (\<lambda>i. 0)"
  then have "candidate w k = replicate 6 CHR ''a''"
    unfolding candidate_def by (intro makeShortCode_zero) simp
  then show ?thesis by (simp add: numeral_eq_Suc)
qed

lemma create_fresh_zero:
  assumes "normalize_url p u = Inr target"
    and "\<not> truthy (SHORT_KV w (''u:'' @ sha1 p target))"
    and "random_src w = (\<lambda>i. 0)"
  shows "fst (create p u w) = Inr (''aaaaaa'', target)"
    and "SHORT_KV (snd (create p u w))
           = (SHORT_KV w)(''c:aaaaaa'' \<mapsto> target, ''u:'' @ sha1 p target \<mapsto> ''aaaaaa'')"
    and "random_src (snd (create p u w)) = (\<lambda>i. 0)"
proof -
  from create_fresh [OF assms(1,2)] obtain k where
    cr: "create p u w
             = (Inr (candidate w k, target),
                kv_put (''u:'' @ sha1 p target) (candidate w k)
                  (kv_put (''c:'' @ candidate w k) target
                     (w\<lparr>random_pos := random_pos w + 6 * Suc k,
                        trace := trace w @ KvGet (''u:'' @ sha1 p target)
                                   # map (\<lambda>j. KvGet (''c:'' @ candidate w j)) [0..<Suc k]\<rparr>)))"
    by blast
  note c = candidate_zero [OF assms(3)]
  show "fst (create p u w) = Inr (''aaaaaa'', target)"
    unfolding cr c by simp
  show "SHORT_KV (snd (create p u w))
           = (SHORT_KV w)(''c:aaaaaa'' \<mapsto> target, ''u:'' @ sha1 p target \<mapsto> ''aaaaaa'')"
    unfolding cr c by simp
  show "random_src (snd (create p u w)) = (\<lambda>i. 0)"
    unfolding cr c by (simp add: assms(3))
qed

lemma example_world_fields:
  "SHORT_KV (example_world x) = Map.empty" "random_src (example_world x) = (\<lambda>i. 0)"
  "random_pos (example_world x) = 0" "random_ok (example_world x)"
  by (simp_all add: example_world_def random_ok_def)

lemma sha1_example: "sha1 example_platform t = t"
  by (simp add: example_platform_def)

lemma normalize_url_x_y:
  "normalize_url example_platform ''https://github.com/x/y'' = Inr ''https://github.com/x/y''"
  by (simp add: normalize_url_def urlStr_of_def trim_def is_space_def has_http_prefix_def
      example_platform_def example_parse_def href_def allowed_def toLowerCase_def lower_char_def)

lemma first_create_example:
  "fst (create example_platform ''  github.com/a/b '' (example_world x))
     = Inr (''aaaaaa'', ''https://github.com/a/b'')"
  "SHORT_KV (snd (create example_platform ''  github.com/a/b '' (example_world x)))
     = [''c:aaaaaa'' \<mapsto> ''https://github.com/a/b'', ''u:https://github.com/a/b'' \<mapsto> ''aaaaaa'']"
  "random_src (snd (create example_platform ''  github.com/a/b '' (example_world x))) = (\<lambda>i. 0)"
proof -
  have f: "\<not> truthy (SHORT_KV (example_world x)
                        (''u:'' @ sha1 example_platform ''https://github.com/a/b''))"
    by (simp add: example_world_fields truthy_def)
  note z = create_fresh_zero [OF normalize_url_example f example_world_fields(2)]
  show "fst (create example_platform ''  github.com/a/b '' (example_world x))
     = Inr (''aaaaaa'', ''https://github.com/a/b'')"
    by (rule z(1))
  show "SHORT_KV (snd (create example_platform ''  github.com/a/b '' (example_world x)))
     = [''c:aaaaaa'' \<mapsto> ''https://github.com/a/b'', ''u:https://github.com/a/b'' \<mapsto> ''aaaaaa'']"
    using z(2) by (simp add: example_world_fields sha1_example)
  show "random_src (snd (create example_platform ''  github.com/a/b '' (example_world x)))
          = (\<lambda>i. 0)"
    by (rule z(3))
qed

text \<open>
  C7. \<open>create\<close> fails exactly on an input that normalisation rejects, and then without
  any effect; on every other input it returns a code. When it finds no code under the
  hash of the target, the loop that draws candidates terminates (\<open>code_loop\<close> is a total
  function, by the measure \<open>5 - retries\<close>): it draws between one and five candidates,
  drawing again only while the candidate's \<^verbatim>\<open>c:\<close> key is occupied, and returns the last
  one drawn. When fewer than five were drawn, the last one was free; the fifth is
  accepted whether its key is occupied or not. The store then maps \<^verbatim>\<open>c:code\<close> to the
  target and \<^verbatim>\<open>u:hash\<close> to the code.
\<close>

theorem create_returns_code:
  "case normalize_url p u of
     Inl e \<Rightarrow> create p u w = (Inl e, w)
   | Inr target \<Rightarrow>
       (\<exists>code. fst (create p u w) = Inr (code, target))
       \<and> (\<not> truthy (SHORT_KV w (''u:'' @ sha1 p target)) \<longrightarrow>
            (\<exists>k<5.
               fst (create p u w) = Inr (candidate w k, target)
               \<and> random_pos (snd (create p u w)) = random_pos w + 6 * Suc k
               \<and> (\<forall>j<k. truthy (SHORT_KV w (''c:'' @ candidate w j)))
               \<and> (Suc k < 5 \<longrightarrow> \<not> truthy (SHORT_KV w (''c:'' @ candidate w k)))
               \<and> SHORT_KV (snd (create p u w))
                   = (SHORT_KV w)(''c:'' @ candidate w k \<mapsto> target,
                                  ''u:'' @ sha1 p target \<mapsto> candidate w k)))"
proof (cases "normalize_url p u")
  case (Inl e)
  then show ?thesis by (simp add: create_def)
next
  case (Inr target)
  show ?thesis
  proof (cases "truthy (SHORT_KV w (''u:'' @ sha1 p target))")
    case True
    then show ?thesis
      by (simp add: Inr create_existing [OF Inr True])
  next
    case False
    from create_fresh [OF Inr False] obtain k where
      k: "k < 5"
      and cr: "create p u w
             = (Inr (candidate w k, target),
                kv_put (''u:'' @ sha1 p target) (candidate w k)
                  (kv_put (''c:'' @ candidate w k) target
                     (w\<lparr>random_pos := random_pos w + 6 * Suc k,
                        trace := trace w @ KvGet (''u:'' @ sha1 p target)
                                   # map (\<lambda>j. KvGet (''c:'' @ candidate w j)) [0..<Suc k]\<rparr>)))"
      and occ: "\<forall>j<k. truthy (SHORT_KV w (''c:'' @ candidate w j))"
      and free: "Suc k < 5 \<longrightarrow> \<not> truthy (SHORT_KV w (''c:'' @ candidate w k))"
      by blast
    have "\<exists>k<5.
               fst (create p u w) = Inr (candidate w k, target)
               \<and> random_pos (snd (create p u w)) = random_pos w + 6 * Suc k
               \<and> (\<forall>j<k. truthy (SHORT_KV w (''c:'' @ candidate w j)))
               \<and> (Suc k < 5 \<longrightarrow> \<not> truthy (SHORT_KV w (''c:'' @ candidate w k)))
               \<and> SHORT_KV (snd (create p u w))
                   = (SHORT_KV w)(''c:'' @ candidate w k \<mapsto> target,
                                  ''u:'' @ sha1 p target \<mapsto> candidate w k)"
      using k occ free by (intro exI [of _ k]) (simp add: cr)
    moreover have "\<exists>code. fst (create p u w) = Inr (code, target)"
      by (simp add: cr)
    ultimately show ?thesis
      by (simp add: Inr)
  qed
qed

theorem create_returns_code_witness:
  "truthy (SHORT_KV occupied_world ''c:aaaaaa'')
   \<and> fst (create example_platform ''  github.com/a/b '' occupied_world)
       = Inr (''aaaaaa'', ''https://github.com/a/b'')
   \<and> random_pos (snd (create example_platform ''  github.com/a/b '' occupied_world)) = 30"
proof -
  have src: "random_src occupied_world = (\<lambda>i. 0)" "random_pos occupied_world = 0"
    by (simp_all add: occupied_world_def example_world_def)
  have occ: "truthy (SHORT_KV occupied_world ''c:aaaaaa'')"
    by (simp add: occupied_world_def truthy_def)
  have f: "\<not> truthy (SHORT_KV occupied_world
                        (''u:'' @ sha1 example_platform ''https://github.com/a/b''))"
    by (simp add: occupied_world_def sha1_example truthy_def)
  have "\<exists>k<5.
          fst (create example_platform ''  github.com/a/b '' occupied_world)
            = Inr (candidate occupied_world k, ''https://github.com/a/b'')
          \<and> random_pos (snd (create example_platform ''  github.com/a/b '' occupied_world))
              = random_pos occupied_world + 6 * Suc k
          \<and> (Suc k < 5
               \<longrightarrow> \<not> truthy (SHORT_KV occupied_world (''c:'' @ candidate occupied_world k)))"
    using create_returns_code [of example_platform "''  github.com/a/b ''" occupied_world] f
    by (simp add: normalize_url_example) blast
  then obtain k where
    k: "k < 5"
    and c: "fst (create example_platform ''  github.com/a/b '' occupied_world)
              = Inr (candidate occupied_world k, ''https://github.com/a/b'')"
    and r: "random_pos (snd (create example_platform ''  github.com/a/b '' occupied_world))
              = random_pos occupied_world + 6 * Suc k"
    and free: "Suc k < 5 \<longrightarrow> \<not> truthy (SHORT_KV occupied_world (''c:'' @ candidate occupied_world k))"
    by blast
  from free occ have "\<not> Suc k < 5"
    unfolding candidate_zero [OF src(1)] by auto
  with k have "k = 4" by simp
  with c r occ show ?thesis
    unfolding candidate_zero [OF src(1)] by (simp add: src)
qed



text \<open>
  C2, as the code has it. For every URL that normalisation accepts, resolving the code
  returned by \<open>create\<close> yields the normalised target by a single read of \<^verbatim>\<open>c:code\<close>,
  provided the store is intact for that target: a code already recorded under the hash
  of the target still points to the target.
\<close>

theorem resolve_after_create:
  assumes "normalize_url p u = Inr target"
    and "\<forall>c. SHORT_KV w (''u:'' @ sha1 p target) = Some c \<longrightarrow> c \<noteq> []
               \<longrightarrow> SHORT_KV w (''c:'' @ c) = Some target"
  shows "\<exists>code. fst (create p u w) = Inr (code, target)
           \<and> resolve code (snd (create p u w))
               = (Some target, emit (KvGet (''c:'' @ code)) (snd (create p u w)))"
proof (cases "truthy (SHORT_KV w (''u:'' @ sha1 p target))")
  case True
  then obtain c where c: "SHORT_KV w (''u:'' @ sha1 p target) = Some c" "c \<noteq> []"
    by (auto simp: truthy_def split: option.splits)
  with assms(2) have "SHORT_KV w (''c:'' @ c) = Some target" by simp
  then show ?thesis
    using normalize_url_nonempty [OF assms(1)] c
    by (simp add: create_existing [OF assms(1) True] resolve_def kv_get_def truthy_def)
next
  case False
  from create_fresh [OF assms(1) False] obtain k where
    cr: "create p u w
             = (Inr (candidate w k, target),
                kv_put (''u:'' @ sha1 p target) (candidate w k)
                  (kv_put (''c:'' @ candidate w k) target
                     (w\<lparr>random_pos := random_pos w + 6 * Suc k,
                        trace := trace w @ KvGet (''u:'' @ sha1 p target)
                                   # map (\<lambda>j. KvGet (''c:'' @ candidate w j)) [0..<Suc k]\<rparr>)))"
    by blast
  have "SHORT_KV (snd (create p u w)) (''c:'' @ candidate w k) = Some target"
    by (simp add: cr)
  then show ?thesis
    using normalize_url_nonempty [OF assms(1)]
    by (simp add: cr resolve_def kv_get_def truthy_def)
qed

theorem resolve_after_create_witness:
  "fst (resolve ''aaaaaa''
     (snd (create example_platform ''  github.com/a/b ''
        (snd (create example_platform ''  github.com/a/b '' (example_world (Inr zip_response)))))))
   = Some ''https://github.com/a/b''"
proof -
  let ?w1 = "snd (create example_platform ''  github.com/a/b '' (example_world (Inr zip_response)))"
  have kv: "SHORT_KV ?w1
     = [''c:aaaaaa'' \<mapsto> ''https://github.com/a/b'', ''u:https://github.com/a/b'' \<mapsto> ''aaaaaa'']"
    by (rule first_create_example(2))
  have inv: "\<forall>c. SHORT_KV ?w1 (''u:'' @ sha1 example_platform ''https://github.com/a/b'') = Some c
               \<longrightarrow> c \<noteq> [] \<longrightarrow> SHORT_KV ?w1 (''c:'' @ c) = Some ''https://github.com/a/b''"
    unfolding kv by (simp add: sha1_example)
  have t: "truthy (SHORT_KV ?w1 (''u:'' @ sha1 example_platform ''https://github.com/a/b''))"
    unfolding kv by (simp add: sha1_example truthy_def)
  have c: "fst (create example_platform ''  github.com/a/b '' ?w1)
             = Inr (''aaaaaa'', ''https://github.com/a/b'')"
    unfolding create_existing [OF normalize_url_example t] kv by (simp add: sha1_example)
  show ?thesis
    using resolve_after_create [OF normalize_url_example inv] by (simp add: c)
qed

text \<open>
  C2 as stated fails. From the empty store, a first URL is shortened, then a second one
  whose five candidates all collide with the first code: the fifth is accepted and its
  \<^verbatim>\<open>c:\<close> entry overwrites the first. Shortening the first URL again returns the old
  code, which now resolves to the second URL.
\<close>

theorem resolve_after_create_counterexample:
  "fst (create example_platform ''  github.com/a/b '' collision_world)
     = Inr (''aaaaaa'', ''https://github.com/a/b'')
   \<and> fst (resolve ''aaaaaa'' (snd (create example_platform ''  github.com/a/b '' collision_world)))
     = Some ''https://github.com/x/y''"
proof -
  let ?w1 = "snd (create example_platform ''  github.com/a/b '' (example_world (Inr zip_response)))"
  have kv1: "SHORT_KV ?w1
     = [''c:aaaaaa'' \<mapsto> ''https://github.com/a/b'', ''u:https://github.com/a/b'' \<mapsto> ''aaaaaa'']"
    by (rule first_create_example(2))
  have f: "\<not> truthy (SHORT_KV ?w1 (''u:'' @ sha1 example_platform ''https://github.com/x/y''))"
    unfolding kv1 by (simp add: sha1_example truthy_def)
  have kv2: "SHORT_KV collision_world
     = [''c:aaaaaa'' \<mapsto> ''https://github.com/x/y'', ''u:https://github.com/a/b'' \<mapsto> ''aaaaaa'',
        ''u:https://github.com/x/y'' \<mapsto> ''aaaaaa'']"
    unfolding collision_world_def
      create_fresh_zero(2) [OF normalize_url_x_y f first_create_example(3)] kv1
    by (auto simp add: sha1_example)
  have t: "truthy (SHORT_KV collision_world
                     (''u:'' @ sha1 example_platform ''https://github.com/a/b''))"
    unfolding kv2 by (simp add: sha1_example truthy_def)
  show ?thesis
    unfolding create_existing [OF normalize_url_example t]
    by (simp add: kv2 sha1_example resolve_def kv_get_def truthy_def)
qed

end
